theory Spec2Isabelle
  imports Main "HOL-Library.Sublist"
begin

section \<open>Python values shared by the models\<close>

text \<open>
  Exceptions are values. Every function of the source that can raise returns
  \<open>py_error + 'a\<close>, with \<open>Inl\<close> for the exception; a function that also changes
  state or writes to the console returns the state or the list of effects next to it,
  so that what happened before a raise is still visible.
\<close>

datatype py_error =
    TypeError
  | ValueError string
  | KeyError string
  | AttributeError string
  | ConnectionError

text \<open>
  \<open>s.split(sep)\<close> for a one-character separator, and \<open>sep.join(xs)\<close>. The last
  case of \<open>py_split\<close> only makes the function total: the recursive call never
  returns the empty list (lemma \<open>py_split_not_Nil\<close>).
\<close>

fun py_split :: "char \<Rightarrow> string \<Rightarrow> string list" where
  "py_split sep [] = [[]]"
| "py_split sep (c # cs) =
     (if c = sep then [] # py_split sep cs
      else (case py_split sep cs of
              w # ws \<Rightarrow> (c # w) # ws
            | [] \<Rightarrow> [[c]]))"

fun py_join :: "string \<Rightarrow> string list \<Rightarrow> string" where
  "py_join sep [] = []"
| "py_join sep [x] = x"
| "py_join sep (x # y # ys) = x @ sep @ py_join sep (y # ys)"

definition newline :: char where
  "newline = CHR 0x0A"

section \<open>wandb/integration/kfp/kfp_patch.py\<close>

subsection \<open>\<open>_get_function_source_definition\<close>\<close>

text \<open>
  \<open>inspect.getsource\<close> and \<open>textwrap.dedent\<close> belong to the standard library and are
  parameters: \<open>getsource\<close> may raise, \<open>dedent\<close> is a function on strings.
  \<open>name_of\<close> reads \<open>func.__name__\<close>. The block that dropped the decorator lines is
  commented out in the source, so the line list is used as it was split.
\<close>

definition get_function_source_definition ::
  "('f \<Rightarrow> py_error + string) \<Rightarrow> (string \<Rightarrow> string) \<Rightarrow> ('f \<Rightarrow> string) \<Rightarrow> 'f
     \<Rightarrow> py_error + string" where
  "get_function_source_definition getsource dedent name_of func =
     (case getsource func of
        Inl e \<Rightarrow> Inl e
      | Inr func_code \<Rightarrow>
          (let func_code' = dedent func_code;
               func_code_lines = py_split newline func_code'
           in if func_code_lines = []
              then Inl (ValueError
                     (''Failed to dedent and clean up the source of function ''
                        @ [CHR 0x22] @ name_of func @ [CHR 0x22]
                        @ ''. It is probably not properly indented.''))
              else Inr (py_join [newline] func_code_lines)))"

subsection \<open>\<open>create_component_from_func\<close>\<close>

text \<open>
  The calls into the pipeline library are recorded in the order they are made.
  \<open>func_to_component_spec\<close> stands for \<open>_func_to_component_spec\<close> and \<open>task_factory\<close>
  for \<open>_create_task_factory_from_component_spec\<close>; both are parameters. A component
  spec carries the metadata that the function may overwrite.
\<close>

record 'b component_spec =
  spec_body :: 'b
  metadata :: "(string \<times> string) list option"

datatype ('f, 'b) kfp_call =
    FuncToComponentSpec 'f string "string option" "string list"
  | Save string "'b component_spec"
  | CreateTaskFactory "'b component_spec"

definition create_component_from_func ::
  "('f \<Rightarrow> string \<Rightarrow> string option \<Rightarrow> string list \<Rightarrow> py_error + 'b component_spec)
     \<Rightarrow> ('b component_spec \<Rightarrow> 't)
     \<Rightarrow> 'f \<Rightarrow> string \<Rightarrow> string option \<Rightarrow> string option \<Rightarrow> string list option
     \<Rightarrow> (string \<times> string) list option
     \<Rightarrow> (py_error + 't) \<times> ('f, 'b) kfp_call list" where
  "create_component_from_func func_to_component_spec task_factory
       func extra_code output_component_file base_image packages_to_install annotations =
     (case packages_to_install of
        None \<Rightarrow> (Inl TypeError, [])
      | Some pkgs \<Rightarrow>
          (let pkgs' = pkgs @ [''wandb''];
               call1 = FuncToComponentSpec func extra_code base_image pkgs'
           in case func_to_component_spec func extra_code base_image pkgs' of
                Inl e \<Rightarrow> (Inl e, [call1])
              | Inr component_spec \<Rightarrow>
                  (let spec1 = (if annotations \<noteq> None \<and> annotations \<noteq> Some []
                                then component_spec\<lparr>metadata := annotations\<rparr>
                                else component_spec);
                       saves = (case output_component_file of
                                  None \<Rightarrow> []
                                | Some file \<Rightarrow> if file = [] then [] else [Save file spec1])
                   in (Inr (task_factory spec1),
                       [call1] @ saves @ [CreateTaskFactory spec1]))))"

subsection \<open>\<open>patch\<close> and \<open>unpatch\<close>\<close>

text \<open>
  The interpreter state the two functions touch: the registry \<open>wandb.patched\<close>, a
  dict from a module's \<open>__name__\<close> to the list of \<open>[module, name]\<close> entries, and the
  attributes of every module. A module object is represented by its name, a function
  object by the pair of its \<open>__name__\<close> and itself. A raise keeps the state as it was
  changed up to then.
\<close>

record 'v py_state =
  patched :: "string \<rightharpoonup> (string \<times> string) list"
  attrs :: "string \<Rightarrow> (string \<rightharpoonup> 'v)"

definition orig_name :: "string \<Rightarrow> string" where
  "orig_name n = ''orig_'' @ n"

definition setattr :: "string \<Rightarrow> string \<Rightarrow> 'v \<Rightarrow> 'v py_state \<Rightarrow> 'v py_state" where
  "setattr m n v s = s\<lparr>attrs := (attrs s)(m := (attrs s m)(n \<mapsto> v))\<rparr>"

definition patch ::
  "string \<times> 'v \<Rightarrow> string \<Rightarrow> 'v py_state \<Rightarrow> (py_error + unit) \<times> 'v py_state" where
  "patch func module s =
     (let s1 = (case patched s module of
                  None \<Rightarrow> s\<lparr>patched := (patched s)(module \<mapsto> [])\<rparr>
                | Some es \<Rightarrow> s)
      in case attrs s1 module (fst func) of
           None \<Rightarrow> (Inl (AttributeError (fst func)), s1)
         | Some original \<Rightarrow>
             (let s2 = setattr module (orig_name (fst func)) original s1;
                  s3 = setattr module (fst func) (snd func) s2
              in case patched s3 module of
                   None \<Rightarrow> (Inl (KeyError module), s3)
                 | Some es \<Rightarrow>
                     (Inr (),
                      s3\<lparr>patched := (patched s3)(module \<mapsto> es @ [(module, fst func)])\<rparr>)))"

text \<open>
  The loop of \<open>unpatch\<close>. Its loop variable is called \<open>module\<close> too, so the key that
  is emptied after the loop is the module of the last entry when there is one.
\<close>

fun restore ::
  "(string \<times> string) list \<Rightarrow> 'v py_state \<Rightarrow> (py_error + unit) \<times> 'v py_state" where
  "restore [] s = (Inr (), s)"
| "restore ((m, f) # es) s =
     (case attrs s m (orig_name f) of
        None \<Rightarrow> (Inl (AttributeError (orig_name f)), s)
      | Some v \<Rightarrow> restore es (setattr m f v s))"

definition unpatch :: "string \<Rightarrow> 'v py_state \<Rightarrow> (py_error + unit) \<times> 'v py_state" where
  "unpatch module s =
     (case patched s module of
        None \<Rightarrow> (Inl (KeyError module), s)
      | Some es \<Rightarrow>
          (case restore es s of
             (Inl e, s') \<Rightarrow> (Inl e, s')
           | (Inr u, s') \<Rightarrow>
               (let module' = (if es = [] then module else fst (last es))
                in (Inr (), s'\<lparr>patched := (patched s')(module' \<mapsto> [])\<rparr>))))"

text \<open>Several calls of \<open>patch\<close> on one module, in order, as \<open>patch_kfp\<close> makes them.\<close>

fun patch_all ::
  "(string \<times> 'v) list \<Rightarrow> string \<Rightarrow> 'v py_state \<Rightarrow> (py_error + unit) \<times> 'v py_state" where
  "patch_all [] module s = (Inr (), s)"
| "patch_all (func # funcs) module s =
     (case patch func module s of
        (Inl e, s') \<Rightarrow> (Inl e, s')
      | (Inr u, s') \<Rightarrow> patch_all funcs module s')"

definition entries_of :: "'v py_state \<Rightarrow> string \<Rightarrow> (string \<times> string) list" where
  "entries_of s m = (case patched s m of None \<Rightarrow> [] | Some es \<Rightarrow> es)"

definition kfp_before :: "nat py_state" where
  "kfp_before =
     \<lparr>patched = Map.empty,
      attrs = (\<lambda>m. if m = ''kfp.components''
                    then [''create_component_from_func'' \<mapsto> 0] else Map.empty)\<rparr>"

definition kfp_outstanding :: "nat py_state" where
  "kfp_outstanding =
     \<lparr>patched = [''kfp.components'' \<mapsto> [(''kfp.components'', ''load_component'')]],
      attrs = (\<lambda>m. if m = ''kfp.components''
                    then [''create_component_from_func'' \<mapsto> 0, ''load_component'' \<mapsto> 5,
                          ''orig_load_component'' \<mapsto> 4]
                    else Map.empty)\<rparr>"

section \<open>tests/conftest.py\<close>

subsection \<open>The server handle and its three context operations\<close>

text \<open>
  The handle is the child process object with the attributes \<open>start_mock_server\<close>
  attaches to it. \<open>requests\<close> is a parameter: a function from a request and the state
  of the network (the server included) to either the exception the call raises or the
  response, and the new state. \<open>json_body\<close> is what \<open>.json()\<close> returns or raises.
\<close>

record server_handle =
  port :: nat
  base_url :: string

datatype http_method = GET | PUT | DELETE

record 'j request =
  req_method :: http_method
  req_url :: string
  req_json :: "'j option"

record 'j response =
  status_code :: int
  json_body :: "py_error + 'j"

type_synonym ('j, 'n) requests = "'j request \<Rightarrow> 'n \<Rightarrow> (py_error + 'j response) \<times> 'n"

definition ctx_request :: "http_method \<Rightarrow> server_handle \<Rightarrow> 'j option \<Rightarrow> 'j request" where
  "ctx_request m server payload =
     \<lparr>req_method = m, req_url = base_url server @ ''/ctx'', req_json = payload\<rparr>"

definition get_ctx :: "('j, 'n) requests \<Rightarrow> server_handle \<Rightarrow> 'n \<Rightarrow> (py_error + 'j) \<times> 'n" where
  "get_ctx send server n =
     (case send (ctx_request GET server None) n of
        (Inl e, n') \<Rightarrow> (Inl e, n')
      | (Inr res, n') \<Rightarrow> (json_body res, n'))"

definition set_ctx ::
  "('j, 'n) requests \<Rightarrow> server_handle \<Rightarrow> 'j \<Rightarrow> 'n \<Rightarrow> (py_error + 'j) \<times> 'n" where
  "set_ctx send server payload n =
     (case send (ctx_request PUT server (Some payload)) n of
        (Inl e, n') \<Rightarrow> (Inl e, n')
      | (Inr res, n') \<Rightarrow> (json_body res, n'))"

definition reset_ctx :: "('j, 'n) requests \<Rightarrow> server_handle \<Rightarrow> 'n \<Rightarrow> (py_error + 'j) \<times> 'n" where
  "reset_ctx send server n =
     (case send (ctx_request DELETE server None) n of
        (Inl e, n') \<Rightarrow> (Inl e, n')
      | (Inr res, n') \<Rightarrow> (json_body res, n'))"

text \<open>A transport that also keeps the list of the requests sent through it.\<close>

definition logged :: "('j, 'n) requests \<Rightarrow> ('j, 'j request list \<times> 'n) requests" where
  "logged send req ln =
     (case send req (snd ln) of (r, n') \<Rightarrow> (r, (fst ln @ [req], n')))"

subsection \<open>The environment-injecting fixtures\<close>

text \<open>
  What a test and its fixtures share: \<open>os.environ\<close> and the network. \<open>del
  os.environ[k]\<close> raises \<open>KeyError\<close> when the variable is not set, and the statements
  after it are not run.
\<close>

record 'n test_state =
  environ :: "string \<rightharpoonup> string"
  net :: 'n

definition setenv :: "string \<Rightarrow> string \<Rightarrow> 'n test_state \<Rightarrow> 'n test_state" where
  "setenv k v s = s\<lparr>environ := (environ s)(k \<mapsto> v)\<rparr>"

definition delenv :: "string \<Rightarrow> 'n test_state \<Rightarrow> (py_error + unit) \<times> 'n test_state" where
  "delenv k s =
     (case environ s k of
        None \<Rightarrow> (Inl (KeyError k), s)
      | Some v \<Rightarrow> (Inr (), s\<lparr>environ := (environ s)(k := None)\<rparr>))"

fun delenv_all :: "string list \<Rightarrow> 'n test_state \<Rightarrow> (py_error + unit) \<times> 'n test_state" where
  "delenv_all [] s = (Inr (), s)"
| "delenv_all (k # ks) s =
     (case delenv k s of
        (Inl e, s') \<Rightarrow> (Inl e, s')
      | (Inr u, s') \<Rightarrow> delenv_all ks s')"

fun setenv_all :: "(string \<times> string) list \<Rightarrow> 'n test_state \<Rightarrow> 'n test_state" where
  "setenv_all [] s = s"
| "setenv_all ((k, v) # items) s = setenv_all items (setenv k v s)"

text \<open>
  \<open>live_mock_server\<close>, split at its \<open>yield\<close>. \<open>name\<close> is the quoted name of the
  test node.
\<close>

definition DUMMY_API_KEY :: string where
  "DUMMY_API_KEY = ''1824812581259009ca9981580f8f8a9012409eee''"

definition live_mock_server_env :: "string list" where
  "live_mock_server_env =
     [''WANDB_USERNAME'', ''WANDB_BASE_URL'', ''WANDB_ERROR_REPORTING'', ''WANDB_API_KEY'']"

definition live_mock_server_setup ::
  "('j, 'n) requests \<Rightarrow> server_handle \<Rightarrow> string \<Rightarrow> 'n test_state
     \<Rightarrow> (py_error + server_handle) \<times> 'n test_state" where
  "live_mock_server_setup send server name s =
     (let s1 = setenv ''WANDB_USERNAME'' name s;
          s2 = setenv ''WANDB_BASE_URL'' (base_url server) s1;
          s3 = setenv ''WANDB_ERROR_REPORTING'' ''false'' s2;
          s4 = setenv ''WANDB_API_KEY'' DUMMY_API_KEY s3
      in case reset_ctx send server (net s4) of
           (Inl e, n') \<Rightarrow> (Inl e, s4\<lparr>net := n'\<rparr>)
         | (Inr j, n') \<Rightarrow> (Inr server, s4\<lparr>net := n'\<rparr>))"

definition live_mock_server_teardown ::
  "'n test_state \<Rightarrow> (py_error + unit) \<times> 'n test_state" where
  "live_mock_server_teardown s = delenv_all live_mock_server_env s"

text \<open>
  How the test runner uses a generator fixture: a fixture whose setup raises is not
  resumed and the test body does not run; otherwise the body runs and the fixture is
  resumed after it, whether the body passed (\<open>True\<close>) or raised (\<open>False\<close>).
\<close>

datatype outcome = Passed | Failed | SetupError py_error | TeardownError py_error

definition use_fixture ::
  "('s \<Rightarrow> (py_error + 'r) \<times> 's) \<Rightarrow> ('s \<Rightarrow> (py_error + unit) \<times> 's)
     \<Rightarrow> ('r \<Rightarrow> 's \<Rightarrow> bool \<times> 's) \<Rightarrow> 's \<Rightarrow> outcome \<times> 's" where
  "use_fixture setup teardown body s =
     (case setup s of
        (Inl e, s1) \<Rightarrow> (SetupError e, s1)
      | (Inr r, s1) \<Rightarrow>
          (case body r s1 of
             (passed, s2) \<Rightarrow>
               (case teardown s2 of
                  (Inl e, s3) \<Rightarrow> (TeardownError e, s3)
                | (Inr u, s3) \<Rightarrow> (if passed then Passed else Failed, s3))))"

text \<open>
  \<open>wandb_init_run\<close>, split at its \<open>yield\<close>. Of the arguments only those that reach
  the environment are kept. A dict is the list of its items in insertion order;
  \<open>mock_k8s\<close> and \<open>mock_sagemaker\<close> are the dicts the two helpers of \<open>tests/utils\<close>
  return. \<open>wandb_init\<close> and \<open>wandb_join\<close> are the results of the two calls into the
  SDK; the \<open>finally\<close> block runs after either of them raises.
\<close>

record 'k wandb_args =
  k8s :: "'k option"
  sagemaker :: bool
  env :: "(string \<times> string) list"

fun dict_set :: "'a \<Rightarrow> 'b \<Rightarrow> ('a \<times> 'b) list \<Rightarrow> ('a \<times> 'b) list" where
  "dict_set k v [] = [(k, v)]"
| "dict_set k v ((k', v') # d) = (if k = k' then (k, v) # d else (k', v') # dict_set k v d)"

fun dict_update :: "('a \<times> 'b) list \<Rightarrow> ('a \<times> 'b) list \<Rightarrow> ('a \<times> 'b) list" where
  "dict_update d [] = d"
| "dict_update d ((k, v) # u) = dict_update (dict_set k v d) u"

definition mocks_from_args ::
  "(string \<times> string) list \<Rightarrow> (string \<times> string) list \<Rightarrow> 'k wandb_args \<Rightarrow> 'k wandb_args" where
  "mocks_from_args mock_k8s mock_sagemaker args =
     (let args1 = (if k8s args \<noteq> None then args\<lparr>env := dict_update (env args) mock_k8s\<rparr>
                   else args)
      in if sagemaker args1 then args1\<lparr>env := dict_update (env args1) mock_sagemaker\<rparr>
         else args1)"

definition wandb_init_run_setup ::
  "(string \<times> string) list \<Rightarrow> (string \<times> string) list \<Rightarrow> 'k wandb_args \<Rightarrow> py_error + 'r
     \<Rightarrow> 'n test_state \<Rightarrow> (py_error + 'r) \<times> 'n test_state" where
  "wandb_init_run_setup mock_k8s mock_sagemaker args wandb_init s =
     (let args' = mocks_from_args mock_k8s mock_sagemaker args;
          s1 = setenv_all (env args') s
      in case wandb_init of
           Inr run \<Rightarrow> (Inr run, s1)
         | Inl e \<Rightarrow>
             (case delenv_all (map fst (env args')) s1 of
                (Inl e', s2) \<Rightarrow> (Inl e', s2)
              | (Inr u, s2) \<Rightarrow> (Inl e, s2)))"

definition wandb_init_run_teardown ::
  "(string \<times> string) list \<Rightarrow> (string \<times> string) list \<Rightarrow> 'k wandb_args \<Rightarrow> py_error + unit
     \<Rightarrow> 'n test_state \<Rightarrow> (py_error + unit) \<times> 'n test_state" where
  "wandb_init_run_teardown mock_k8s mock_sagemaker args wandb_join s =
     (let args' = mocks_from_args mock_k8s mock_sagemaker args
      in case delenv_all (map fst (env args')) s of
           (Inl e', s2) \<Rightarrow> (Inl e', s2)
         | (Inr u, s2) \<Rightarrow> (wandb_join, s2))"

subsection \<open>The mock server and a session of tests\<close>

text \<open>
  Modelled from the spec: the handler of \<open>/ctx\<close> in the mock server
  (\<open>tests/utils/mock_server.py\<close>, which is not among the sources). The network state
  is the server-side Context; \<open>GET\<close> returns it, \<open>PUT\<close> merges the supplied fields
  into it, \<open>DELETE\<close> clears it. \<open>up\<close> tells whether the server can be reached.
\<close>

definition mock_server_send ::
  "bool \<Rightarrow> (string \<rightharpoonup> 'v, string \<rightharpoonup> 'v) requests" where
  "mock_server_send up req c =
     (if \<not> up then (Inl ConnectionError, c)
      else case req_method req of
             GET \<Rightarrow> (Inr \<lparr>status_code = 200, json_body = Inr c\<rparr>, c)
           | PUT \<Rightarrow>
               (case req_json req of
                  None \<Rightarrow> (Inr \<lparr>status_code = 200, json_body = Inr c\<rparr>, c)
                | Some payload \<Rightarrow>
                    (Inr \<lparr>status_code = 200, json_body = Inr (c ++ payload)\<rparr>, c ++ payload))
           | DELETE \<Rightarrow> (Inr \<lparr>status_code = 200, json_body = Inr Map.empty\<rparr>, Map.empty))"

text \<open>
  A session runs its tests one after the other on the one server. Each test uses
  \<open>live_mock_server\<close>; its body may do anything to the state. \<open>run_session\<close> returns
  the server-side Context as it is when each test body starts.
\<close>

record 'v live_test =
  node_name :: string
  server_up :: bool
  test_body :: "server_handle \<Rightarrow> (string \<rightharpoonup> 'v) test_state \<Rightarrow> bool \<times> (string \<rightharpoonup> 'v) test_state"

fun run_session ::
  "server_handle \<Rightarrow> 'v live_test list \<Rightarrow> (string \<rightharpoonup> 'v) test_state
     \<Rightarrow> (string \<rightharpoonup> 'v) list \<times> (string \<rightharpoonup> 'v) test_state" where
  "run_session server [] s = ([], s)"
| "run_session server (t # ts) s =
     (let setup = live_mock_server_setup (mock_server_send (server_up t)) server (node_name t);
          observed = (case setup s of (Inl e, s1) \<Rightarrow> [] | (Inr r, s1) \<Rightarrow> [net s1]);
          s' = snd (use_fixture setup live_mock_server_teardown (test_body t) s)
      in case run_session server ts s' of (obs, s'') \<Rightarrow> (observed @ obs, s''))"

subsection \<open>\<open>start_mock_server\<close>\<close>

text \<open>
  \<open>"%i" % n\<close> for a port number, \<open>"http://localhost:%i" % n\<close>, and
  \<open>"%s" % server.returncode\<close>, which is \<open>None\<close> or an integer.
\<close>

definition digit_char :: "nat \<Rightarrow> char" where
  "digit_char d = ''0123456789'' ! d"

fun string_of_nat :: "nat \<Rightarrow> string" where
  "string_of_nat n =
     (if n < 10 then [digit_char n] else string_of_nat (n div 10) @ [digit_char (n mod 10)])"

declare string_of_nat.simps [simp del]

definition localhost_url :: "nat \<Rightarrow> string" where
  "localhost_url p = ''http://localhost:'' @ string_of_nat p"

definition py_str_int :: "int \<Rightarrow> string" where
  "py_str_int i = (if i < 0 then ''-'' @ string_of_nat (nat (- i)) else string_of_nat (nat i))"

definition py_str_returncode :: "int option \<Rightarrow> string" where
  "py_str_returncode rc = (case rc of None \<Rightarrow> ''None'' | Some i \<Rightarrow> py_str_int i)"

text \<open>
  \<open>s.strip()\<close>: white space is removed at both ends. The characters are those up to
  U+00FF for which \<open>str.isspace\<close> holds.
\<close>

definition is_space :: "char \<Rightarrow> bool" where
  "is_space c \<longleftrightarrow>
     c \<in> set [CHR '' '', CHR 0x09, CHR 0x0A, CHR 0x0B, CHR 0x0C, CHR 0x0D,
              CHR 0x1C, CHR 0x1D, CHR 0x1E, CHR 0x1F, CHR 0x85, CHR 0xA0]"

definition strip :: "string \<Rightarrow> string" where
  "strip s = rev (dropWhile is_space (rev (dropWhile is_space s)))"

text \<open>
  What the function does to the outside, in order. The time stamp of the
  \<open>Timed out\<close> line is left out of the printed text.
\<close>

datatype event =
    Setenv string string
  | Popen nat
  | is_HttpGet: HttpGet string nat
  | Print string
  | Poll
  | is_Sleep: Sleep nat
  | Terminate

text \<open>
  One attempt of the liveness poll, as the outside answers it: what \<open>requests.get\<close>
  does (a response with its status code, or a \<open>RequestException\<close>), and what
  \<open>server.poll()\<close> reports at that moment (\<open>None\<close> while the child is alive, its exit
  code afterwards; the function only asks after an exception).
\<close>

datatype get_result = Response int | RequestException

type_synonym attempt = "get_result \<times> int option"

text \<open>
  The outside of one startup run: the port \<open>utils.free_port()\<close> returns, the root
  directory, the answer to every attempt, what reading the log file gives (its lines,
  or the text of the exception), and \<open>server.returncode\<close> after \<open>terminate()\<close>.
  Opening the log file and spawning the child are taken to succeed.
\<close>

record world =
  free_port :: nat
  repo_root :: string
  attempts :: "nat \<Rightarrow> attempt"
  log_lines :: "string + string list"
  returncode :: "int option"

text \<open>
  The loop \<open>for i in range(10)\<close> over the answers to its attempts. The result is the
  exception raised inside the loop, or the flag \<open>started\<close> when the loop ends.
\<close>

fun poll_loop :: "string \<Rightarrow> attempt list \<Rightarrow> (py_error + bool) \<times> event list" where
  "poll_loop url [] = (Inr False, [])"
| "poll_loop url ((res, polled) # rest) =
     (case res of
        Response code \<Rightarrow>
          (if code = 200 then (Inr True, [HttpGet (url @ ''/ctx'') 5])
           else (case poll_loop url rest of
                   (r, es) \<Rightarrow>
                     (r, HttpGet (url @ ''/ctx'') 5
                         # Print (''Attempting to connect but got: <Response [''
                                    @ py_str_int code @ '']>'')
                         # es)))
      | RequestException \<Rightarrow>
          (case polled of
             None \<Rightarrow>
               (case poll_loop url rest of
                  (r, es) \<Rightarrow>
                    (r, HttpGet (url @ ''/ctx'') 5
                        # Print (''Timed out waiting for server to start... '' @ url)
                        # Poll # Sleep 1 # es))
           | Some exit_code \<Rightarrow>
               (Inl (ValueError ''Server failed to start.''),
                [HttpGet (url @ ''/ctx'') 5,
                 Print (''Timed out waiting for server to start... '' @ url),
                 Poll])))"

definition dump_log :: "string + string list \<Rightarrow> event list" where
  "dump_log f =
     (case f of
        Inr ls \<Rightarrow>
          [Print (replicate 40 CHR ''='')] @ map (\<lambda>l. Print (strip l)) ls
            @ [Print (replicate 40 CHR ''='')]
      | Inl e \<Rightarrow> [Print (replicate 40 CHR ''=''), Print (''EXCEPTION: '' @ e)])"

text \<open>
  The function with the module global \<open>server\<close> threaded through it: \<open>g\<close> is the
  global before the call (\<open>None\<close> when the module is loaded), the second component
  of the result is the global after it. The process object is bound to the global,
  and given its port, its base URL and the three context operations, before the poll
  starts; the fixtures read the handle from that global.
\<close>

definition start_mock_server_global ::
  "world \<Rightarrow> server_handle option
     \<Rightarrow> ((py_error + server_handle) \<times> event list) \<times> server_handle option" where
  "start_mock_server_global w g =
     (let p = free_port w;
          server = \<lparr>port = p, base_url = localhost_url p\<rparr>;
          spawn = [Setenv ''PORT'' (string_of_nat p), Setenv ''PYTHONPATH'' (repo_root w),
                   Popen p]
      in (case poll_loop (base_url server) (map (attempts w) [0..<10]) of
            (Inl e, es) \<Rightarrow> (Inl e, spawn @ es)
          | (Inr started, es) \<Rightarrow>
              if started
              then (Inr server,
                    spawn @ es
                      @ [Print (''Mock server listing on '' @ string_of_nat p
                                  @ '' see tests/logs/live_mock_server.log'')])
              else (Inl (ValueError (''Failed to start server!  Exit code ''
                                       @ py_str_returncode (returncode w))),
                    spawn @ es
                      @ [Terminate,
                         Print ''Server failed to launch, see tests/logs/live_mock_server.log'']
                      @ dump_log (log_lines w)),
          Some server))"

text \<open>
  The call of the function when the module is loaded: what it returns or raises, and
  what it does to the outside.
\<close>

definition start_mock_server :: "world \<Rightarrow> (py_error + server_handle) \<times> event list" where
  "start_mock_server w = fst (start_mock_server_global w None)"

text \<open>
  What one attempt of the poll adds to the trace, in the words of claim C2 as amended:
  the request with its timeout; after an answer with another status than 200 a line
  on the console and nothing else; after a request exception the line on the console
  and the question whether the child is alive, and the sleep of one second only when
  it is.
\<close>

definition attempt_trace :: "string \<Rightarrow> attempt \<Rightarrow> event list" where
  "attempt_trace url a =
     (case a of
        (Response code, polled) \<Rightarrow>
          if code = 200 then [HttpGet (url @ ''/ctx'') 5]
          else [HttpGet (url @ ''/ctx'') 5,
                Print (''Attempting to connect but got: <Response [''
                         @ py_str_int code @ '']>'')]
      | (RequestException, None) \<Rightarrow>
          [HttpGet (url @ ''/ctx'') 5,
           Print (''Timed out waiting for server to start... '' @ url), Poll, Sleep 1]
      | (RequestException, Some exit_code) \<Rightarrow>
          [HttpGet (url @ ''/ctx'') 5,
           Print (''Timed out waiting for server to start... '' @ url), Poll])"

text \<open>An answer after which the loop makes no further attempt.\<close>

definition ends_poll :: "attempt \<Rightarrow> bool" where
  "ends_poll a \<longleftrightarrow>
     fst a = Response 200 \<or> (fst a = RequestException \<and> snd a \<noteq> None)"

subsection \<open>\<open>local_netrc\<close> and \<open>test_dir\<close>\<close>

text \<open>
  \<open>needle in haystack\<close> on strings: the needle is a contiguous part of the haystack.
\<close>

fun substring_in :: "string \<Rightarrow> string \<Rightarrow> bool" where
  "substring_in needle [] = (needle = [])"
| "substring_in needle (c # cs) = (prefix needle (c # cs) \<or> substring_in needle cs)"

text \<open>
  \<open>os.path.join\<close> of two parts on POSIX. \<open>os.path.realpath\<close> of a relative path is
  taken on a directory tree without symbolic links, with the working directory as
  \<open>os.getcwd()\<close> reports it: there it is the working directory joined with the path.
\<close>

definition path_join :: "string \<Rightarrow> string \<Rightarrow> string" where
  "path_join a b =
     (if b \<noteq> [] \<and> hd b = CHR ''/'' then b
      else if a = [] \<or> last a = CHR ''/'' then a @ b
      else a @ ''/'' @ b)"

definition realpath :: "string \<Rightarrow> string \<Rightarrow> string" where
  "realpath cur path = path_join cur path"

text \<open>
  The part of the process state these fixtures change and the patched function reads:
  the working directory and the function bound to \<open>os.path.expanduser\<close>. That
  function is called with the working directory of the moment of the call. The files
  and directories the fixtures create are not tracked.
\<close>

record os_state =
  cwd :: string
  expanduser :: "string \<Rightarrow> string \<Rightarrow> string"

definition expand :: "(string \<Rightarrow> string \<Rightarrow> string) \<Rightarrow> string \<Rightarrow> string \<Rightarrow> string" where
  "expand origexpand cur path =
     (if substring_in ''netrc'' path then realpath cur ''netrc'' else origexpand cur path)"

text \<open>
  \<open>local_netrc\<close> up to its \<open>yield\<close>. \<open>tmp\<close> is the directory that
  \<open>CliRunner().isolated_filesystem()\<close> creates and makes the working directory.
\<close>

definition local_netrc :: "string \<Rightarrow> os_state \<Rightarrow> os_state" where
  "local_netrc tmp st =
     (let st1 = st\<lparr>cwd := tmp\<rparr>;
          origexpand = expanduser st1
      in st1\<lparr>expanduser := expand origexpand\<rparr>)"

text \<open>\<open>test_dir\<close> up to its \<open>yield\<close>: the directory of the test becomes the working directory.\<close>

definition test_dir :: "string \<Rightarrow> string \<Rightarrow> os_state \<Rightarrow> os_state" where
  "test_dir root test_name st =
     (let dir = path_join (path_join (path_join root ''tests'') ''logs'') test_name
      in st\<lparr>cwd := dir\<rparr>)"

definition os_path_expanduser :: "os_state \<Rightarrow> string \<Rightarrow> string" where
  "os_path_expanduser st path = expanduser st (cwd st) path"

definition inside :: "string \<Rightarrow> string \<Rightarrow> bool" where
  "inside dir path = strict_prefix (dir @ ''/'') path"

definition os_before :: os_state where
  "os_before = \<lparr>cwd = ''/repo'', expanduser = (\<lambda>cur path. ''/home/user'' @ tl path)\<rparr>"

subsection \<open>Concrete runs\<close>

text \<open>Inputs at which the theorems below are evaluated.\<close>

definition env_before :: "unit test_state" where
  "env_before = \<lparr>environ = [''WANDB_API_KEY'' \<mapsto> ''secret'', ''HOME'' \<mapsto> ''/home/user''], net = ()\<rparr>"

definition send_ok :: "(unit, unit) requests" where
  "send_ok req n = (Inr \<lparr>status_code = 200, json_body = Inr ()\<rparr>, n)"

definition local_server :: server_handle where
  "local_server = \<lparr>port = 8080, base_url = ''http://localhost:8080''\<rparr>"

definition console_args :: "unit wandb_args" where
  "console_args = \<lparr>k8s = None, sagemaker = False, env = [(''WANDB_CONSOLE'', ''off'')]\<rparr>"

definition passing_body :: "'r \<Rightarrow> 's \<Rightarrow> bool \<times> 's" where
  "passing_body r t = (True, t)"

definition raising_body :: "'r \<Rightarrow> 's \<Rightarrow> bool \<times> 's" where
  "raising_body r t = (False, t)"

definition writing_test :: "nat live_test" where
  "writing_test =
     \<lparr>node_name = ''test_a'', server_up = True,
      test_body = (\<lambda>srv t.
         (False, t\<lparr>net := snd (set_ctx (mock_server_send True) srv [''a'' \<mapsto> 1] (net t))\<rparr>))\<rparr>"

definition reading_test :: "nat live_test" where
  "reading_test = \<lparr>node_name = ''test_b'', server_up = True, test_body = passing_body\<rparr>"

definition session_before :: "(string \<rightharpoonup> nat) test_state" where
  "session_before = \<lparr>environ = Map.empty, net = [''stale'' \<mapsto> 7]\<rparr>"

definition world_child_exits :: world where
  "world_child_exits =
     \<lparr>free_port = 8080, repo_root = ''/repo'',
      attempts = (\<lambda>i. (RequestException, Some 1)),
      log_lines = Inr [''ImportError: No module named flask''],
      returncode = Some 1\<rparr>"

definition world_never_ready :: world where
  "world_never_ready =
     \<lparr>free_port = 8080, repo_root = ''/repo'',
      attempts = (\<lambda>i. (RequestException, None)),
      log_lines = Inr ['' * Serving Flask app  ''],
      returncode = None\<rparr>"

definition world_error_500 :: world where
  "world_error_500 =
     \<lparr>free_port = 8080, repo_root = ''/repo'',
      attempts = (\<lambda>i. (Response 500, None)),
      log_lines = Inr [],
      returncode = None\<rparr>"

definition world_ready_third :: world where
  "world_ready_third =
     \<lparr>free_port = 8080, repo_root = ''/repo'',
      attempts = (\<lambda>i. if i < 2 then (RequestException, None) else (Response 200, None)),
      log_lines = Inr [],
      returncode = None\<rparr>"

definition world_exits_third :: world where
  "world_exits_third =
     \<lparr>free_port = 8080, repo_root = ''/repo'',
      attempts = (\<lambda>i. if i < 2 then (RequestException, None) else (RequestException, Some 1)),
      log_lines = Inr [],
      returncode = Some 1\<rparr>"

section \<open>Properties of kfp_patch.py\<close>

lemma py_split_not_Nil: "py_split sep s \<noteq> []"
  by (induction s) (auto split: list.splits)

lemma py_join_Cons_Cons: "py_join sep ((c # w) # ws) = c # py_join sep (w # ws)"
  by (cases ws) simp_all

lemma py_join_split: "py_join [sep] (py_split sep s) = s"
proof (induction s)
  case Nil
  show ?case by simp
next
  case (Cons c cs)
  obtain w ws where ws: "py_split sep cs = w # ws"
    using py_split_not_Nil [of sep cs] by (cases "py_split sep cs") auto
  show ?case
  proof (cases "c = sep")
    case True
    with Cons ws show ?thesis by simp
  next
    case False
    with Cons ws show ?thesis by (simp add: py_join_Cons_Cons)
  qed
qed

text \<open>
  C10. Whenever the source of the function is obtained, the split of the dedented
  source into lines is not empty, so the \<open>ValueError\<close> branch is never taken: the
  function returns the lines joined again, which is the whole dedented source, the
  decorator lines included.
\<close>

theorem get_function_source_definition_total:
  assumes "getsource func = Inr src"
  shows "py_split newline (dedent src) \<noteq> []
         \<and> get_function_source_definition getsource dedent name_of func
             = Inr (py_join [newline] (py_split newline (dedent src)))
         \<and> get_function_source_definition getsource dedent name_of func
             = Inr (dedent src)"
  using assms
  by (simp add: get_function_source_definition_def Let_def py_split_not_Nil py_join_split)

theorem get_function_source_definition_total_witness:
  "get_function_source_definition (\<lambda>f::unit. Inr (''@dec'' @ [newline] @ ''def f(): pass''))
       (\<lambda>s. s) (\<lambda>f. ''f'') ()
     = Inr (''@dec'' @ [newline] @ ''def f(): pass'')"
  using get_function_source_definition_total
          [of "\<lambda>f::unit. Inr (''@dec'' @ [newline] @ ''def f(): pass'')" "()"
              "''@dec'' @ [newline] @ ''def f(): pass''" "\<lambda>s. s" "\<lambda>f. ''f''"]
  by simp

text \<open>
  C9. With \<open>packages_to_install\<close> left at its default \<open>None\<close>, the augmented
  assignment raises \<open>TypeError\<close> and no call into the pipeline library has been made:
  no component spec was constructed.
\<close>

theorem create_component_from_func_default_packages:
  "create_component_from_func func_to_component_spec task_factory
       func extra_code output_component_file base_image None annotations
     = (Inl TypeError, [])"
  by (simp add: create_component_from_func_def)

subsection \<open>\<open>patch\<close> followed by \<open>unpatch\<close>\<close>

lemma orig_name_inj [simp]: "orig_name a = orig_name b \<longleftrightarrow> a = b"
  by (simp add: orig_name_def)

lemma orig_name_neq [simp]: "orig_name n \<noteq> n" "n \<noteq> orig_name n"
proof -
  have "length (orig_name n) \<noteq> length n" by (simp add: orig_name_def)
  then show "orig_name n \<noteq> n" "n \<noteq> orig_name n" by auto
qed

lemma patch_ok:
  assumes "attrs s m n = Some a"
  shows "\<exists>s1. patch (n, v) m s = (Inr (), s1)
     \<and> attrs s1 m = (attrs s m)(orig_name n \<mapsto> a, n \<mapsto> v)
     \<and> (\<forall>m'. m' \<noteq> m \<longrightarrow> attrs s1 m' = attrs s m')
     \<and> patched s1 = (patched s)(m \<mapsto> entries_of s m @ [(m, n)])"
  using assms
  by (auto simp: patch_def setattr_def entries_of_def Let_def split: option.splits)

lemma patch_all_ok:
  assumes "\<forall>n \<in> fst ` set fs. attrs s m n \<noteq> None"
    and "distinct (map fst fs)"
    and "\<forall>n \<in> fst ` set fs. orig_name n \<notin> fst ` set fs"
  shows "\<exists>s1. patch_all fs m s = (Inr (), s1)
     \<and> (\<forall>(n, v) \<in> set fs. attrs s1 m n = Some v \<and> attrs s1 m (orig_name n) = attrs s m n)
     \<and> (\<forall>k. k \<notin> fst ` set fs \<and> k \<notin> orig_name ` fst ` set fs \<longrightarrow> attrs s1 m k = attrs s m k)
     \<and> (\<forall>m'. m' \<noteq> m \<longrightarrow> attrs s1 m' = attrs s m')
     \<and> patched s1 m = (if fs = [] then patched s m else Some (entries_of s m @ map (\<lambda>f. (m, fst f)) fs))
     \<and> (\<forall>m'. m' \<noteq> m \<longrightarrow> patched s1 m' = patched s m')"
  using assms
proof (induction fs arbitrary: s)
  case Nil
  then show ?case by simp
next
  case (Cons f fs)
  obtain n v where f: "f = (n, v)" by (cases f)
  from Cons.prems(1) f obtain a where a: "attrs s m n = Some a" by auto
  from patch_ok [OF a, of v] obtain s' where
    p: "patch (n, v) m s = (Inr (), s')"
    and at: "attrs s' m = (attrs s m)(orig_name n \<mapsto> a, n \<mapsto> v)"
    and oth: "\<forall>m'. m' \<noteq> m \<longrightarrow> attrs s' m' = attrs s m'"
    and pt: "patched s' = (patched s)(m \<mapsto> entries_of s m @ [(m, n)])"
    by blast
  have nn: "n \<notin> fst ` set fs" using Cons.prems(2) f by auto
  have on: "orig_name n \<notin> fst ` set fs" using Cons.prems(3) f by auto
  have no: "\<forall>k \<in> fst ` set fs. orig_name k \<noteq> n" using Cons.prems(3) f by auto
  have 1: "\<forall>k \<in> fst ` set fs. attrs s' m k \<noteq> None"
    using Cons.prems(1) at by auto
  have 2: "distinct (map fst fs)" using Cons.prems(2) by simp
  have 3: "\<forall>k \<in> fst ` set fs. orig_name k \<notin> fst ` set fs" using Cons.prems(3) by auto
  from Cons.IH [OF 1 2 3] obtain s1 where
    q: "patch_all fs m s' = (Inr (), s1)"
    and A: "\<forall>(k, w) \<in> set fs. attrs s1 m k = Some w \<and> attrs s1 m (orig_name k) = attrs s' m k"
    and B: "\<forall>k. k \<notin> fst ` set fs \<and> k \<notin> orig_name ` fst ` set fs \<longrightarrow> attrs s1 m k = attrs s' m k"
    and C: "\<forall>m'. m' \<noteq> m \<longrightarrow> attrs s1 m' = attrs s' m'"
    and D: "patched s1 m = (if fs = [] then patched s' m else Some (entries_of s' m @ map (\<lambda>f. (m, fst f)) fs))"
    and E: "\<forall>m'. m' \<noteq> m \<longrightarrow> patched s1 m' = patched s' m'"
    by blast
  have e': "entries_of s' m = entries_of s m @ [(m, n)]"
    using pt by (simp add: entries_of_def)
  have r1: "patch_all (f # fs) m s = (Inr (), s1)" using p q f by simp
  have r2: "\<forall>(k, w) \<in> set (f # fs). attrs s1 m k = Some w \<and> attrs s1 m (orig_name k) = attrs s m k"
  proof -
    have "attrs s1 m n = Some v \<and> attrs s1 m (orig_name n) = attrs s m n"
      using B nn on no at a by (auto simp: image_iff)
    moreover have "\<forall>(k, w) \<in> set fs. attrs s1 m k = Some w \<and> attrs s1 m (orig_name k) = attrs s m k"
      using A at nn on no by (force simp: image_iff)
    ultimately show ?thesis using f by simp
  qed
  have r3: "\<forall>k. k \<notin> fst ` set (f # fs) \<and> k \<notin> orig_name ` fst ` set (f # fs) \<longrightarrow> attrs s1 m k = attrs s m k"
    using B at f by auto
  have r4: "\<forall>m'. m' \<noteq> m \<longrightarrow> attrs s1 m' = attrs s m'" using C oth by simp
  have r5: "patched s1 m = Some (entries_of s m @ map (\<lambda>f. (m, fst f)) (f # fs))"
    using D e' pt f by simp
  have r6: "\<forall>m'. m' \<noteq> m \<longrightarrow> patched s1 m' = patched s m'" using E pt by simp
  from r1 r2 r3 r4 r5 r6 show ?case by simp
qed


lemma restore_ok:
  assumes "\<forall>n \<in> set ns. attrs s m (orig_name n) \<noteq> None"
    and "\<forall>n \<in> set ns. orig_name n \<notin> set ns"
  shows "\<exists>s2. restore (map (\<lambda>n. (m, n)) ns) s = (Inr (), s2)
     \<and> (\<forall>n \<in> set ns. attrs s2 m n = attrs s m (orig_name n))
     \<and> (\<forall>k. k \<notin> set ns \<longrightarrow> attrs s2 m k = attrs s m k)
     \<and> (\<forall>m'. m' \<noteq> m \<longrightarrow> attrs s2 m' = attrs s m')
     \<and> patched s2 = patched s"
  using assms
proof (induction ns arbitrary: s)
  case Nil
  then show ?case by simp
next
  case (Cons n ns)
  from Cons.prems(1) obtain a where a: "attrs s m (orig_name n) = Some a" by auto
  let ?s' = "setattr m n a s"
  have at: "attrs ?s' m = (attrs s m)(n \<mapsto> a)"
    and oth: "\<forall>m'. m' \<noteq> m \<longrightarrow> attrs ?s' m' = attrs s m'"
    and pt: "patched ?s' = patched s"
    by (simp_all add: setattr_def)
  have no: "\<forall>k \<in> set ns. orig_name k \<noteq> n" using Cons.prems(2) by auto
  have 1: "\<forall>k \<in> set ns. attrs ?s' m (orig_name k) \<noteq> None"
    using Cons.prems(1) at no by auto
  have 2: "\<forall>k \<in> set ns. orig_name k \<notin> set ns" using Cons.prems(2) by auto
  from Cons.IH [OF 1 2] obtain s2 where
    q: "restore (map (\<lambda>n. (m, n)) ns) ?s' = (Inr (), s2)"
    and A: "\<forall>k \<in> set ns. attrs s2 m k = attrs ?s' m (orig_name k)"
    and B: "\<forall>k. k \<notin> set ns \<longrightarrow> attrs s2 m k = attrs ?s' m k"
    and C: "\<forall>m'. m' \<noteq> m \<longrightarrow> attrs s2 m' = attrs ?s' m'"
    and D: "patched s2 = patched ?s'"
    by blast
  have r1: "restore (map (\<lambda>n. (m, n)) (n # ns)) s = (Inr (), s2)" using a q by simp
  have r2: "\<forall>k \<in> set (n # ns). attrs s2 m k = attrs s m (orig_name k)"
  proof
    fix k assume k: "k \<in> set (n # ns)"
    show "attrs s2 m k = attrs s m (orig_name k)"
    proof (cases "k \<in> set ns")
      case True
      with A at no show ?thesis by auto
    next
      case False
      with k have "k = n" by simp
      with False B at a show ?thesis by simp
    qed
  qed
  have r3: "\<forall>k. k \<notin> set (n # ns) \<longrightarrow> attrs s2 m k = attrs s m k" using B at by simp
  have r4: "\<forall>m'. m' \<noteq> m \<longrightarrow> attrs s2 m' = attrs s m'" using C oth by simp
  have r5: "patched s2 = patched s" using D pt by simp
  from r1 r2 r3 r4 r5 show ?case by blast
qed

text \<open>
  C8, as amended. Take a module \<open>m\<close> whose registry entry is as earlier calls of
  \<open>patch\<close> leave it (every outstanding entry names \<open>m\<close> and a name whose
  \<open>orig_<name>\<close> attribute exists), and patch it with functions whose names are
  attributes of \<open>m\<close>, are pairwise distinct and not among the outstanding ones, where
  no patched name, new or outstanding, is \<open>orig_\<close> followed by another of them. Then
  every call of \<open>patch\<close> succeeds and saves the attribute it replaces under
  \<open>orig_<name>\<close>; the following \<open>unpatch m\<close> succeeds, gives every newly patched
  attribute the value it had before the patches and every outstanding one its saved
  original, leaves the registry entry of \<open>m\<close> empty, leaves every \<open>orig_<name>\<close>
  attribute on the module with the original as its value, and changes no other
  attribute of \<open>m\<close> and no other module.
\<close>

theorem patch_unpatch_round_trip:
  assumes registry: "\<forall>e \<in> set (entries_of s m).
                       fst e = m \<and> attrs s m (orig_name (snd e)) \<noteq> None"
    and nonempty: "fs \<noteq> []"
    and present: "\<forall>n \<in> fst ` set fs. attrs s m n \<noteq> None"
    and dist: "distinct (map fst fs)"
    and fresh: "\<forall>n \<in> fst ` set fs. n \<notin> snd ` set (entries_of s m)"
    and noclash: "\<forall>n \<in> fst ` set fs \<union> snd ` set (entries_of s m).
                    orig_name n \<notin> fst ` set fs \<union> snd ` set (entries_of s m)"
  shows "\<exists>s1 s2. patch_all fs m s = (Inr (), s1)
     \<and> (\<forall>(n, v) \<in> set fs. attrs s1 m n = Some v \<and> attrs s1 m (orig_name n) = attrs s m n)
     \<and> unpatch m s1 = (Inr (), s2)
     \<and> (\<forall>n \<in> fst ` set fs. attrs s2 m n = attrs s m n)
     \<and> (\<forall>n \<in> fst ` set fs. attrs s2 m (orig_name n) = attrs s m n)
     \<and> (\<forall>n \<in> snd ` set (entries_of s m). attrs s2 m n = attrs s m (orig_name n))
     \<and> (\<forall>k. k \<notin> orig_name ` fst ` set fs \<and> k \<notin> snd ` set (entries_of s m)
              \<longrightarrow> attrs s2 m k = attrs s m k)
     \<and> (\<forall>m'. m' \<noteq> m \<longrightarrow> attrs s2 m' = attrs s m')
     \<and> patched s2 m = Some []"
proof -
  define es0 where "es0 = entries_of s m"
  define New where "New = fst ` set fs"
  define Old where "Old = snd ` set es0"
  define ns where "ns = map snd es0 @ map fst fs"
  have set_ns: "set ns = Old \<union> New" by (auto simp: ns_def Old_def New_def)
  have noclashN: "\<forall>n \<in> fst ` set fs. orig_name n \<notin> fst ` set fs"
    using noclash by auto
  from patch_all_ok [OF present dist noclashN] obtain s1 where
    p: "patch_all fs m s = (Inr (), s1)"
    and A: "\<forall>(n, v) \<in> set fs. attrs s1 m n = Some v \<and> attrs s1 m (orig_name n) = attrs s m n"
    and B: "\<forall>k. k \<notin> fst ` set fs \<and> k \<notin> orig_name ` fst ` set fs \<longrightarrow> attrs s1 m k = attrs s m k"
    and C: "\<forall>m'. m' \<noteq> m \<longrightarrow> attrs s1 m' = attrs s m'"
    and D: "patched s1 m = (if fs = [] then patched s m
              else Some (entries_of s m @ map (\<lambda>f. (m, fst f)) fs))"
    by blast
  have "map (\<lambda>n. (m, n)) (map snd es0) = map (\<lambda>e. e) es0"
    unfolding map_map using registry
    by (intro map_cong) (auto simp: es0_def comp_def prod_eq_iff)
  then have es0': "es0 = map (\<lambda>n. (m, n)) (map snd es0)" by simp
  have "patched s1 m = Some (es0 @ map (\<lambda>n. (m, n)) (map fst fs))"
    using D nonempty by (simp add: es0_def comp_def)
  then have es: "patched s1 m = Some (map (\<lambda>n. (m, n)) ns)"
    using es0' by (simp add: ns_def)
  have oNew: "\<forall>n \<in> New. attrs s1 m (orig_name n) = attrs s m n" using A by (auto simp: New_def)
  have oOld: "\<forall>g \<in> Old. attrs s1 m (orig_name g) = attrs s m (orig_name g)"
  proof
    fix g assume g: "g \<in> Old"
    have "orig_name g \<notin> fst ` set fs" using noclash g by (auto simp: Old_def es0_def)
    moreover have "g \<notin> fst ` set fs"
      using fresh g unfolding Old_def es0_def by blast
    then have "orig_name g \<notin> orig_name ` fst ` set fs"
      by (auto simp: image_iff)
    ultimately show "attrs s1 m (orig_name g) = attrs s m (orig_name g)" using B by blast
  qed
  have regOld: "\<forall>g \<in> Old. attrs s m (orig_name g) \<noteq> None"
    using registry by (auto simp: Old_def es0_def)
  have presentNew: "\<forall>n \<in> New. attrs s m n \<noteq> None"
    using present unfolding New_def by blast
  have 1: "\<forall>n \<in> set ns. attrs s1 m (orig_name n) \<noteq> None"
  proof
    fix n assume "n \<in> set ns"
    then consider "n \<in> Old" | "n \<in> New" unfolding set_ns by blast
    then show "attrs s1 m (orig_name n) \<noteq> None"
    proof cases
      case 1
      with oOld regOld show ?thesis by metis
    next
      case 2
      with oNew presentNew show ?thesis by metis
    qed
  qed
  have 2: "\<forall>n \<in> set ns. orig_name n \<notin> set ns"
    using noclash by (auto simp: set_ns New_def Old_def es0_def)
  from restore_ok [OF 1 2] obtain s2 where
    q: "restore (map (\<lambda>n. (m, n)) ns) s1 = (Inr (), s2)"
    and E: "\<forall>n \<in> set ns. attrs s2 m n = attrs s1 m (orig_name n)"
    and F: "\<forall>k. k \<notin> set ns \<longrightarrow> attrs s2 m k = attrs s1 m k"
    and G: "\<forall>m'. m' \<noteq> m \<longrightarrow> attrs s2 m' = attrs s1 m'"
    and H: "patched s2 = patched s1"
    by blast
  let ?s3 = "s2\<lparr>patched := (patched s2)(m \<mapsto> [])\<rparr>"
  have nsne: "ns \<noteq> []" using nonempty by (simp add: ns_def)
  have lastm: "fst (last (map (\<lambda>n. (m, n)) ns)) = m"
    using nsne by (simp add: last_map)
  have u: "unpatch m s1 = (Inr (), ?s3)"
    using es q nsne lastm by (simp add: unpatch_def)
  have set_ns': "set ns = snd ` set (entries_of s m) \<union> fst ` set fs"
    using set_ns unfolding Old_def New_def es0_def .
  have oNew': "\<forall>n \<in> fst ` set fs. attrs s1 m (orig_name n) = attrs s m n"
    using oNew unfolding New_def .
  have oOld': "\<forall>g \<in> snd ` set (entries_of s m).
                 attrs s1 m (orig_name g) = attrs s m (orig_name g)"
    using oOld unfolding Old_def es0_def .
  have E': "\<forall>n \<in> snd ` set (entries_of s m) \<union> fst ` set fs.
              attrs s2 m n = attrs s1 m (orig_name n)"
    using E unfolding set_ns' .
  have F': "\<forall>k. k \<notin> snd ` set (entries_of s m) \<union> fst ` set fs
              \<longrightarrow> attrs s2 m k = attrs s1 m k"
    using F unfolding set_ns' .
  have s3: "attrs ?s3 = attrs s2" by simp
  have r1: "\<forall>n \<in> fst ` set fs. attrs ?s3 m n = attrs s m n"
  proof
    fix n assume n: "n \<in> fst ` set fs"
    then have "attrs s2 m n = attrs s1 m (orig_name n)" using E' by blast
    also have "\<dots> = attrs s m n" using oNew' n by blast
    finally show "attrs ?s3 m n = attrs s m n" unfolding s3 .
  qed
  have r1b: "\<forall>n \<in> fst ` set fs. attrs ?s3 m (orig_name n) = attrs s m n"
  proof
    fix n assume n: "n \<in> fst ` set fs"
    then have "orig_name n \<notin> snd ` set (entries_of s m) \<union> fst ` set fs"
      using noclash by blast
    then have "attrs s2 m (orig_name n) = attrs s1 m (orig_name n)" using F' by blast
    also have "\<dots> = attrs s m n" using oNew' n by blast
    finally show "attrs ?s3 m (orig_name n) = attrs s m n" unfolding s3 .
  qed
  have r1c: "\<forall>n \<in> snd ` set (entries_of s m). attrs ?s3 m n = attrs s m (orig_name n)"
  proof
    fix n assume n: "n \<in> snd ` set (entries_of s m)"
    then have "attrs s2 m n = attrs s1 m (orig_name n)" using E' by blast
    also have "\<dots> = attrs s m (orig_name n)" using oOld' n by blast
    finally show "attrs ?s3 m n = attrs s m (orig_name n)" unfolding s3 .
  qed
  have r2: "\<forall>k. k \<notin> orig_name ` fst ` set fs \<and> k \<notin> snd ` set (entries_of s m)
              \<longrightarrow> attrs ?s3 m k = attrs s m k"
  proof (intro allI impI)
    fix k assume k: "k \<notin> orig_name ` fst ` set fs \<and> k \<notin> snd ` set (entries_of s m)"
    show "attrs ?s3 m k = attrs s m k"
    proof (cases "k \<in> fst ` set fs")
      case True
      with r1 show ?thesis by blast
    next
      case False
      with k have "k \<notin> snd ` set (entries_of s m) \<union> fst ` set fs" by blast
      then have "attrs s2 m k = attrs s1 m k" using F' by blast
      also have "\<dots> = attrs s m k" using B False k by blast
      finally show ?thesis unfolding s3 .
    qed
  qed
  have r3: "\<forall>m'. m' \<noteq> m \<longrightarrow> attrs ?s3 m' = attrs s m'" using G C by simp
  have r4: "patched ?s3 m = Some []" by simp
  from p A u r1 r1b r1c r2 r3 r4 show ?thesis by blast
qed

theorem patch_unpatch_round_trip_witness:
  "patched kfp_outstanding ''kfp.components''
     = Some [(''kfp.components'', ''load_component'')]
   \<and> (\<exists>s1 s2. patch_all [(''create_component_from_func'', 1)] ''kfp.components''
                  kfp_outstanding = (Inr (), s1)
        \<and> attrs s1 ''kfp.components'' ''create_component_from_func'' = Some 1
        \<and> attrs s1 ''kfp.components'' (orig_name ''create_component_from_func'') = Some 0
        \<and> unpatch ''kfp.components'' s1 = (Inr (), s2)
        \<and> attrs s2 ''kfp.components'' ''create_component_from_func'' = Some 0
        \<and> attrs s2 ''kfp.components'' (orig_name ''create_component_from_func'') = Some 0
        \<and> attrs s2 ''kfp.components'' ''load_component'' = Some 4
        \<and> patched s2 ''kfp.components'' = Some [])"
proof -
  define m where "m = ''kfp.components''"
  define f where "f = ''create_component_from_func''"
  define l where "l = ''load_component''"
  define st where "st = kfp_outstanding"
  have en: "entries_of st m = [(m, l)]"
    by (simp add: st_def kfp_outstanding_def entries_of_def m_def l_def)
  have pt: "patched kfp_outstanding ''kfp.components''
              = Some [(''kfp.components'', ''load_component'')]"
    by (simp add: kfp_outstanding_def)
  have 0: "attrs st m f = Some 0"
    by (simp add: st_def kfp_outstanding_def m_def f_def)
  have ol: "attrs st m (orig_name l) = Some 4"
    by (simp add: st_def kfp_outstanding_def orig_name_def m_def l_def)
  have fl: "f \<noteq> l" "orig_name f \<noteq> l" "orig_name l \<noteq> f"
    by (simp_all add: orig_name_def f_def l_def)
  have 1: "\<forall>e \<in> set (entries_of st m). fst e = m \<and> attrs st m (orig_name (snd e)) \<noteq> None"
    using en ol by simp
  have 2: "[(f, 1::nat)] \<noteq> []" by simp
  have 3: "\<forall>n \<in> fst ` set [(f, 1::nat)]. attrs st m n \<noteq> None"
    using 0 by simp
  have 4: "distinct (map fst [(f, 1::nat)])" by simp
  have 5: "\<forall>n \<in> fst ` set [(f, 1::nat)]. n \<notin> snd ` set (entries_of st m)"
    using en fl by simp
  have 6: "\<forall>n \<in> fst ` set [(f, 1::nat)] \<union> snd ` set (entries_of st m).
             orig_name n \<notin> fst ` set [(f, 1::nat)] \<union> snd ` set (entries_of st m)"
    using en fl by simp
  note T = patch_unpatch_round_trip [OF 1 2 3 4 5 6]
  from T obtain s1 where "\<exists>s2. patch_all [(f, 1)] m st = (Inr (), s1)
     \<and> (\<forall>(n, v) \<in> set [(f, 1::nat)].
           attrs s1 m n = Some v \<and> attrs s1 m (orig_name n) = attrs st m n)
     \<and> unpatch m s1 = (Inr (), s2)
     \<and> (\<forall>n \<in> fst ` set [(f, 1::nat)]. attrs s2 m n = attrs st m n)
     \<and> (\<forall>n \<in> fst ` set [(f, 1::nat)]. attrs s2 m (orig_name n) = attrs st m n)
     \<and> (\<forall>n \<in> snd ` set (entries_of st m). attrs s2 m n = attrs st m (orig_name n))
     \<and> (\<forall>k. k \<notin> orig_name ` fst ` set [(f, 1::nat)] \<and> k \<notin> snd ` set (entries_of st m)
              \<longrightarrow> attrs s2 m k = attrs st m k)
     \<and> (\<forall>m'. m' \<noteq> m \<longrightarrow> attrs s2 m' = attrs st m')
     \<and> patched s2 m = Some []" ..
  then obtain s2 where H: "patch_all [(f, 1)] m st = (Inr (), s1)
     \<and> (\<forall>(n, v) \<in> set [(f, 1::nat)].
           attrs s1 m n = Some v \<and> attrs s1 m (orig_name n) = attrs st m n)
     \<and> unpatch m s1 = (Inr (), s2)
     \<and> (\<forall>n \<in> fst ` set [(f, 1::nat)]. attrs s2 m n = attrs st m n)
     \<and> (\<forall>n \<in> fst ` set [(f, 1::nat)]. attrs s2 m (orig_name n) = attrs st m n)
     \<and> (\<forall>n \<in> snd ` set (entries_of st m). attrs s2 m n = attrs st m (orig_name n))
     \<and> (\<forall>k. k \<notin> orig_name ` fst ` set [(f, 1::nat)] \<and> k \<notin> snd ` set (entries_of st m)
              \<longrightarrow> attrs s2 m k = attrs st m k)
     \<and> (\<forall>m'. m' \<noteq> m \<longrightarrow> attrs s2 m' = attrs st m')
     \<and> patched s2 m = Some []" ..
  note a = H [THEN conjunct1]
  note b = H [THEN conjunct2, THEN conjunct1]
  note c = H [THEN conjunct2, THEN conjunct2, THEN conjunct1]
  note d = H [THEN conjunct2, THEN conjunct2, THEN conjunct2, THEN conjunct1]
  note d2 = H [THEN conjunct2, THEN conjunct2, THEN conjunct2, THEN conjunct2, THEN conjunct1]
  note d3 = H [THEN conjunct2, THEN conjunct2, THEN conjunct2, THEN conjunct2,
               THEN conjunct2, THEN conjunct1]
  note e = H [THEN conjunct2, THEN conjunct2, THEN conjunct2, THEN conjunct2,
              THEN conjunct2, THEN conjunct2, THEN conjunct2, THEN conjunct2]
  from b 0 have b': "attrs s1 m f = Some 1" "attrs s1 m (orig_name f) = Some 0" by simp_all
  from d 0 have d': "attrs s2 m f = Some 0" by simp
  from d2 0 have d2': "attrs s2 m (orig_name f) = Some 0" by simp
  from d3 en ol have d3': "attrs s2 m l = Some 4" by simp
  have main: "\<exists>s1 s2. patch_all [(f, 1)] m st = (Inr (), s1)
     \<and> attrs s1 m f = Some 1 \<and> attrs s1 m (orig_name f) = Some 0
     \<and> unpatch m s1 = (Inr (), s2) \<and> attrs s2 m f = Some 0
     \<and> attrs s2 m (orig_name f) = Some 0 \<and> attrs s2 m l = Some 4
     \<and> patched s2 m = Some []"
    using a b' c d' d2' d3' e by (intro exI [of _ s1] exI [of _ s2] conjI)
  show ?thesis by (rule conjI [OF pt main [unfolded m_def f_def l_def st_def]])
qed

text \<open>
  The claim as stated fails when one name is patched twice before \<open>unpatch\<close>, as two
  calls of \<open>patch_kfp\<close> do: the second call saves the replacement under
  \<open>orig_<name>\<close>, and \<open>unpatch\<close> puts the replacement back, not the function the
  module had at the start.
\<close>

theorem patch_twice_unpatch_counterexample:
  "fst (patch (''create_component_from_func'', 1) ''kfp.components'' kfp_before) = Inr ()
   \<and> fst (patch (''create_component_from_func'', 1) ''kfp.components''
            (snd (patch (''create_component_from_func'', 1) ''kfp.components'' kfp_before)))
       = Inr ()
   \<and> fst (unpatch ''kfp.components''
            (snd (patch (''create_component_from_func'', 1) ''kfp.components''
               (snd (patch (''create_component_from_func'', 1) ''kfp.components'' kfp_before)))))
       = Inr ()
   \<and> attrs kfp_before ''kfp.components'' ''create_component_from_func'' = Some 0
   \<and> attrs (snd (unpatch ''kfp.components''
            (snd (patch (''create_component_from_func'', 1) ''kfp.components''
               (snd (patch (''create_component_from_func'', 1) ''kfp.components'' kfp_before))))))
         ''kfp.components'' ''create_component_from_func'' = Some 1
   \<and> attrs (snd (unpatch ''kfp.components''
            (snd (patch (''create_component_from_func'', 1) ''kfp.components''
               (snd (patch (''create_component_from_func'', 1) ''kfp.components'' kfp_before))))))
         ''kfp.components'' (orig_name ''create_component_from_func'') = Some 1"
  by (simp add: patch_def unpatch_def setattr_def kfp_before_def orig_name_def Let_def)

section \<open>Properties of tests/conftest.py\<close>

subsection \<open>The context operations and the fixtures\<close>

lemma setenv_simps [simp]:
  "environ (setenv k v s) = (environ s)(k \<mapsto> v)" "net (setenv k v s) = net s"
  by (simp_all add: setenv_def)

lemma delenv_all_ok:
  assumes "distinct ks" and "\<forall>k \<in> set ks. environ s k \<noteq> None"
  shows "\<exists>s'. delenv_all ks s = (Inr (), s')
     \<and> environ s' = (\<lambda>k. if k \<in> set ks then None else environ s k)
     \<and> net s' = net s"
  using assms
proof (induction ks arbitrary: s)
  case Nil
  then show ?case by simp
next
  case (Cons k ks)
  from Cons.prems obtain v where v: "environ s k = Some v" by auto
  let ?s1 = "s\<lparr>environ := (environ s)(k := None)\<rparr>"
  have d: "delenv k s = (Inr (), ?s1)" using v by (simp add: delenv_def)
  have 1: "distinct ks" using Cons.prems by simp
  have 2: "\<forall>j \<in> set ks. environ ?s1 j \<noteq> None" using Cons.prems by auto
  from Cons.IH [OF 1 2] obtain s' where
    a: "delenv_all ks ?s1 = (Inr (), s')"
    and b: "environ s' = (\<lambda>j. if j \<in> set ks then None else environ ?s1 j)"
    and c: "net s' = net ?s1"
    by blast
  have "delenv_all (k # ks) s = (Inr (), s')" using d a by simp
  moreover have "environ s' = (\<lambda>j. if j \<in> set (k # ks) then None else environ s j)"
    using b by auto
  moreover have "net s' = net s" using c by simp
  ultimately show ?case by blast
qed

lemma setenv_all_env:
  "net (setenv_all items s) = net s
   \<and> (\<forall>k \<in> fst ` set items. environ (setenv_all items s) k \<noteq> None)
   \<and> (\<forall>k. k \<notin> fst ` set items \<longrightarrow> environ (setenv_all items s) k = environ s k)
   \<and> (\<forall>k. environ s k \<noteq> None \<longrightarrow> environ (setenv_all items s) k \<noteq> None)"
proof (induction items arbitrary: s)
  case Nil
  show ?case by simp
next
  case (Cons kv items)
  obtain k v where kv: "kv = (k, v)" by (cases kv)
  have ih: "net (setenv_all items (setenv k v s)) = net (setenv k v s)"
    "\<forall>j \<in> fst ` set items. environ (setenv_all items (setenv k v s)) j \<noteq> None"
    "\<forall>j. j \<notin> fst ` set items \<longrightarrow>
          environ (setenv_all items (setenv k v s)) j = environ (setenv k v s) j"
    "\<forall>j. environ (setenv k v s) j \<noteq> None \<longrightarrow>
          environ (setenv_all items (setenv k v s)) j \<noteq> None"
    using Cons.IH [of "setenv k v s"] by blast+
  have 1: "net (setenv_all (kv # items) s) = net s" using ih(1) kv by simp
  have 2: "\<forall>j \<in> fst ` set (kv # items). environ (setenv_all (kv # items) s) j \<noteq> None"
    using ih(2) ih(4) kv by auto
  have 3: "\<forall>j. j \<notin> fst ` set (kv # items) \<longrightarrow>
              environ (setenv_all (kv # items) s) j = environ s j"
    using ih(3) kv by auto
  have 4: "\<forall>j. environ s j \<noteq> None \<longrightarrow> environ (setenv_all (kv # items) s) j \<noteq> None"
    using ih(4) kv by auto
  from 1 2 3 4 show ?case by blast
qed

lemma dict_set_keys: "fst ` set (dict_set k v d) = insert k (fst ` set d)"
proof (induction d)
  case Nil
  show ?case by simp
next
  case (Cons kv d)
  obtain k' v' where kv: "kv = (k', v')" by (cases kv)
  show ?case
  proof (cases "k = k'")
    case True
    with kv show ?thesis by simp
  next
    case False
    with kv Cons show ?thesis by (simp add: insert_commute)
  qed
qed

lemma dict_set_distinct: "distinct (map fst d) \<Longrightarrow> distinct (map fst (dict_set k v d))"
proof (induction d)
  case Nil
  show ?case by simp
next
  case (Cons kv d)
  obtain k' v' where kv: "kv = (k', v')" by (cases kv)
  have "fst ` set (dict_set k v d) = insert k (fst ` set d)"
    by (rule dict_set_keys)
  with Cons kv show ?case by auto
qed

lemma dict_update_distinct:
  "distinct (map fst d) \<Longrightarrow> distinct (map fst (dict_update d u))"
  by (induction d u rule: dict_update.induct) (simp_all add: dict_set_distinct)

lemma mocks_from_args_distinct:
  "distinct (map fst (env args)) \<Longrightarrow>
   distinct (map fst (env (mocks_from_args mock_k8s mock_sagemaker args)))"
  by (simp add: mocks_from_args_def Let_def dict_update_distinct)

lemma live_mock_server_setup_env:
  "environ (snd (live_mock_server_setup send server name s))
     = (environ s)(''WANDB_USERNAME'' \<mapsto> name, ''WANDB_BASE_URL'' \<mapsto> base_url server,
          ''WANDB_ERROR_REPORTING'' \<mapsto> ''false'', ''WANDB_API_KEY'' \<mapsto> DUMMY_API_KEY)"
  by (simp add: live_mock_server_setup_def Let_def split: prod.splits sum.splits)

lemma live_env_distinct: "distinct live_mock_server_env"
  by (simp add: live_mock_server_env_def)

text \<open>
  C7. Each of \<open>get_ctx\<close>, \<open>set_ctx\<close> and \<open>reset_ctx\<close> sends exactly one request
  (\<open>GET\<close>, \<open>PUT\<close> with the payload, \<open>DELETE\<close>) to \<open>base_url + "/ctx"\<close>: through a
  transport that lists the requests it is given, the list grows by that one request,
  also when the call fails, and the network is left as that one call leaves it. When
  the transport raises, the operation raises the same exception; when it answers, the
  operation returns what \<open>.json()\<close> gives for the response.
\<close>

theorem ctx_client_single_round_trip:
  "snd (get_ctx (logged send) server (log, n))
     = (log @ [\<lparr>req_method = GET, req_url = base_url server @ ''/ctx'', req_json = None\<rparr>],
        snd (send \<lparr>req_method = GET, req_url = base_url server @ ''/ctx'', req_json = None\<rparr> n))
   \<and> snd (set_ctx (logged send) server payload (log, n))
     = (log @ [\<lparr>req_method = PUT, req_url = base_url server @ ''/ctx'',
                 req_json = Some payload\<rparr>],
        snd (send \<lparr>req_method = PUT, req_url = base_url server @ ''/ctx'',
                   req_json = Some payload\<rparr> n))
   \<and> snd (reset_ctx (logged send) server (log, n))
     = (log @ [\<lparr>req_method = DELETE, req_url = base_url server @ ''/ctx'', req_json = None\<rparr>],
        snd (send \<lparr>req_method = DELETE, req_url = base_url server @ ''/ctx'',
                   req_json = None\<rparr> n))
   \<and> (fst (send \<lparr>req_method = GET, req_url = base_url server @ ''/ctx'', req_json = None\<rparr> n)
          = Inl e \<longrightarrow> fst (get_ctx send server n) = Inl e)
   \<and> (fst (send \<lparr>req_method = PUT, req_url = base_url server @ ''/ctx'',
                   req_json = Some payload\<rparr> n)
          = Inl e \<longrightarrow> fst (set_ctx send server payload n) = Inl e)
   \<and> (fst (send \<lparr>req_method = DELETE, req_url = base_url server @ ''/ctx'', req_json = None\<rparr> n)
          = Inl e \<longrightarrow> fst (reset_ctx send server n) = Inl e)
   \<and> (fst (send \<lparr>req_method = GET, req_url = base_url server @ ''/ctx'', req_json = None\<rparr> n)
          = Inr res \<longrightarrow> fst (get_ctx send server n) = json_body res)
   \<and> (fst (send \<lparr>req_method = PUT, req_url = base_url server @ ''/ctx'',
                   req_json = Some payload\<rparr> n)
          = Inr res \<longrightarrow> fst (set_ctx send server payload n) = json_body res)
   \<and> (fst (send \<lparr>req_method = DELETE, req_url = base_url server @ ''/ctx'', req_json = None\<rparr> n)
          = Inr res \<longrightarrow> fst (reset_ctx send server n) = json_body res)"
  by (auto simp: get_ctx_def set_ctx_def reset_ctx_def logged_def ctx_request_def
           split: prod.splits sum.splits)

lemma live_setup_net:
  assumes "live_mock_server_setup (mock_server_send up) server name s = (Inr r, s1)"
  shows "net s1 = Map.empty"
  using assms
  by (auto simp: live_mock_server_setup_def reset_ctx_def mock_server_send_def ctx_request_def
                 Let_def split: if_splits)

text \<open>
  C4. In a session of tests that use \<open>live_mock_server\<close>, the server-side Context is
  empty when a test body starts, whatever the state before the session and whatever the
  bodies of the earlier tests did. The server's handler is the one modelled from the
  spec.
\<close>

theorem context_reset_at_test_start:
  "\<forall>c \<in> set (fst (run_session server tests s)). c = Map.empty"
proof (induction tests arbitrary: s)
  case Nil
  show ?case by simp
next
  case (Cons t ts)
  let ?prepare = "live_mock_server_setup (mock_server_send (server_up t)) server (node_name t)"
  let ?s' = "snd (use_fixture ?prepare live_mock_server_teardown (test_body t) s)"
  have obs: "\<forall>c \<in> set (case ?prepare s of (Inl e, s1) \<Rightarrow> [] | (Inr r, s1) \<Rightarrow> [net s1]).
               c = Map.empty"
  proof (cases "?prepare s")
    case (Pair res s1)
    show ?thesis
    proof (cases res)
      case (Inl e)
      with Pair show ?thesis by simp
    next
      case (Inr r)
      with Pair live_setup_net [of "server_up t" server "node_name t" s r s1]
      show ?thesis by simp
    qed
  qed
  from Cons.IH [of ?s'] obs show ?case
    by (auto simp: Let_def split: prod.splits)
qed

lemma live_fixture_env:
  assumes ok: "fst (live_mock_server_setup send server name s) = Inr r"
    and body_env: "\<forall>r t. environ (snd (body r t)) = environ t"
  shows "environ (snd (use_fixture (live_mock_server_setup send server name)
                         live_mock_server_teardown body s))
           = (\<lambda>k. if k \<in> set live_mock_server_env then None else environ s k)"
proof -
  obtain s1 where s1: "live_mock_server_setup send server name s = (Inr r, s1)"
    using ok by (cases "live_mock_server_setup send server name s") auto
  have e1: "environ s1
     = (environ s)(''WANDB_USERNAME'' \<mapsto> name, ''WANDB_BASE_URL'' \<mapsto> base_url server,
          ''WANDB_ERROR_REPORTING'' \<mapsto> ''false'', ''WANDB_API_KEY'' \<mapsto> DUMMY_API_KEY)"
    using live_mock_server_setup_env [of send server name s] s1 by simp
  obtain passed s2 where b: "body r s1 = (passed, s2)" by (cases "body r s1")
  have e2: "environ s2 = environ s1" using body_env b by (metis snd_conv)
  have pres: "\<forall>k \<in> set live_mock_server_env. environ s2 k \<noteq> None"
    using e2 e1 by (simp add: live_mock_server_env_def)
  from delenv_all_ok [OF live_env_distinct pres] obtain s3 where
    d: "delenv_all live_mock_server_env s2 = (Inr (), s3)"
    and e3: "environ s3 = (\<lambda>k. if k \<in> set live_mock_server_env then None else environ s2 k)"
    by blast
  have u: "snd (use_fixture (live_mock_server_setup send server name)
                  live_mock_server_teardown body s) = s3"
    using s1 b d by (simp add: use_fixture_def live_mock_server_teardown_def)
  have "environ s3 = (\<lambda>k. if k \<in> set live_mock_server_env then None else environ s k)"
  proof
    fix k
    show "environ s3 k = (if k \<in> set live_mock_server_env then None else environ s k)"
      using e3 e2 e1 by (auto simp: live_mock_server_env_def)
  qed
  with u show ?thesis by simp
qed

lemma wandb_fixture_env:
  assumes dist: "distinct (map fst (env args))"
    and body_env: "\<forall>r t. environ (snd (body r t)) = environ t"
  shows "environ (snd (use_fixture (wandb_init_run_setup mock_k8s mock_sagemaker args wandb_init)
                         (wandb_init_run_teardown mock_k8s mock_sagemaker args wandb_join)
                         body s))
           = (\<lambda>k. if k \<in> fst ` set (env (mocks_from_args mock_k8s mock_sagemaker args))
                   then None else environ s k)"
proof -
  define items where "items = env (mocks_from_args mock_k8s mock_sagemaker args)"
  define s1 where "s1 = setenv_all items s"
  have di: "distinct (map fst items)"
    using mocks_from_args_distinct [OF dist] by (simp add: items_def)
  have p1: "\<forall>k \<in> set (map fst items). environ s1 k \<noteq> None"
    using setenv_all_env [of items s] by (simp add: s1_def)
  have o1: "\<forall>k. k \<notin> fst ` set items \<longrightarrow> environ s1 k = environ s k"
    using setenv_all_env [of items s] by (simp add: s1_def)
  have fin: "\<exists>t'. delenv_all (map fst items) t = (Inr (), t')
        \<and> environ t' = (\<lambda>k. if k \<in> fst ` set items then None else environ s k)"
    if t: "environ t = environ s1" for t
  proof -
    have pt: "\<forall>k \<in> set (map fst items). environ t k \<noteq> None" using p1 t by simp
    from delenv_all_ok [OF di pt] obtain t' where
      d: "delenv_all (map fst items) t = (Inr (), t')"
      and e: "environ t' = (\<lambda>k. if k \<in> set (map fst items) then None else environ t k)"
      by blast
    have "environ t' = (\<lambda>k. if k \<in> fst ` set items then None else environ s k)"
    proof
      fix k
      show "environ t' k = (if k \<in> fst ` set items then None else environ s k)"
        using e t o1 by simp
    qed
    with d show ?thesis by blast
  qed
  show ?thesis
  proof (cases wandb_init)
    case (Inl e)
    from fin [of s1, OF refl] obtain t' where
      "delenv_all (map fst items) s1 = (Inr (), t')"
      "environ t' = (\<lambda>k. if k \<in> fst ` set items then None else environ s k)"
      by blast
    with Inl show ?thesis
      by (simp add: use_fixture_def wandb_init_run_setup_def Let_def
                    items_def [symmetric] s1_def [symmetric])
  next
    case (Inr run)
    obtain passed s2 where b: "body run s1 = (passed, s2)" by (cases "body run s1")
    have e2: "environ s2 = environ s1" using body_env b by (metis snd_conv)
    from fin [OF e2] obtain t' where
      "delenv_all (map fst items) s2 = (Inr (), t')"
      "environ t' = (\<lambda>k. if k \<in> fst ` set items then None else environ s k)"
      by blast
    with Inr b show ?thesis
      by (cases wandb_join)
         (simp_all add: use_fixture_def wandb_init_run_setup_def wandb_init_run_teardown_def
                        Let_def items_def [symmetric] s1_def [symmetric])
  qed
qed

text \<open>
  C3, as amended. \<open>s1\<close> is the state after a test that uses \<open>live_mock_server\<close>,
  \<open>s2\<close> the state after a test that uses \<open>wandb_init_run\<close>; the test bodies leave
  the environment as they find it and may pass or raise. When the setup of
  \<open>live_mock_server\<close> succeeds, every variable set before it whose name is not one of
  the four the fixture injects has the same value afterwards, and the four injected
  names are unset. For \<open>wandb_init_run\<close> the same holds with the keys of the
  \<open>env\<close> argument (after \<open>mocks_from_args\<close>) in place of the four names, whether or
  not \<open>wandb.init\<close> or \<open>wandb.join\<close> raises.
\<close>

theorem fixtures_keep_other_variables:
  assumes body1_env: "\<forall>r t. environ (snd (body1 r t)) = environ t"
    and body2_env: "\<forall>r t. environ (snd (body2 r t)) = environ t"
    and live: "s1 = snd (use_fixture (live_mock_server_setup send server name)
                           live_mock_server_teardown body1 s)"
    and wandb: "s2 = snd (use_fixture
                           (wandb_init_run_setup mock_k8s mock_sagemaker args wandb_init)
                           (wandb_init_run_teardown mock_k8s mock_sagemaker args wandb_join)
                           body2 s)"
    and keys: "keys = fst ` set (env (mocks_from_args mock_k8s mock_sagemaker args))"
  shows "(fst (live_mock_server_setup send server name s) = Inr server \<longrightarrow>
            (\<forall>k v. environ s k = Some v \<and> k \<notin> set live_mock_server_env
                    \<longrightarrow> environ s1 k = Some v)
            \<and> (\<forall>k \<in> set live_mock_server_env. environ s1 k = None))
       \<and> (distinct (map fst (env args)) \<longrightarrow>
            (\<forall>k v. environ s k = Some v \<and> k \<notin> keys \<longrightarrow> environ s2 k = Some v)
            \<and> (\<forall>k \<in> keys. environ s2 k = None))"
proof (intro conjI impI)
  assume ok: "fst (live_mock_server_setup send server name s) = Inr server"
  have e: "environ s1 = (\<lambda>k. if k \<in> set live_mock_server_env then None else environ s k)"
    unfolding live by (rule live_fixture_env [OF ok body1_env])
  show "\<forall>k v. environ s k = Some v \<and> k \<notin> set live_mock_server_env \<longrightarrow> environ s1 k = Some v"
    using e by simp
  show "\<forall>k \<in> set live_mock_server_env. environ s1 k = None" using e by simp
next
  assume dist: "distinct (map fst (env args))"
  have e: "environ s2 = (\<lambda>k. if k \<in> keys then None else environ s k)"
    unfolding wandb keys by (rule wandb_fixture_env [OF dist body2_env])
  show "\<forall>k v. environ s k = Some v \<and> k \<notin> keys \<longrightarrow> environ s2 k = Some v" using e by simp
  show "\<forall>k \<in> keys. environ s2 k = None" using e by simp
qed

text \<open>
  The claim as stated fails for a variable that carries one of the injected names: the
  teardown deletes it, it does not put the earlier value back.
\<close>

theorem live_mock_server_deletes_counterexample:
  "environ env_before ''WANDB_API_KEY'' = Some ''secret''
   \<and> fst (use_fixture (live_mock_server_setup send_ok local_server ''test_x'')
            live_mock_server_teardown (\<lambda>r t. (True, t)) env_before) = Passed
   \<and> environ (snd (use_fixture (live_mock_server_setup send_ok local_server ''test_x'')
            live_mock_server_teardown (\<lambda>r t. (True, t)) env_before)) ''WANDB_API_KEY'' = None"
  by (simp add: env_before_def use_fixture_def live_mock_server_setup_def
        live_mock_server_teardown_def live_mock_server_env_def reset_ctx_def send_ok_def
        ctx_request_def setenv_def delenv_def Let_def)

theorem fixtures_keep_other_variables_witness:
  "environ env_before ''HOME'' = Some ''/home/user''
   \<and> fst (use_fixture (live_mock_server_setup send_ok local_server ''test_x'')
                     live_mock_server_teardown raising_body env_before) = Failed
   \<and> environ (snd (use_fixture (live_mock_server_setup send_ok local_server ''test_x'')
                     live_mock_server_teardown raising_body env_before)) ''HOME''
       = Some ''/home/user''
   \<and> environ (snd (use_fixture (wandb_init_run_setup [] [] console_args (Inr ()))
                     (wandb_init_run_teardown [] [] console_args (Inr ()))
                     passing_body env_before)) ''HOME''
       = Some ''/home/user''"
proof -
  define s1 where "s1 = snd (use_fixture (live_mock_server_setup send_ok local_server ''test_x'')
                     live_mock_server_teardown raising_body env_before)"
  define s2 where "s2 = snd (use_fixture (wandb_init_run_setup [] [] console_args (Inr ()))
                     (wandb_init_run_teardown [] [] console_args (Inr ()))
                     (passing_body :: unit \<Rightarrow> _) env_before)"
  define keys where "keys = fst ` set (env (mocks_from_args [] [] console_args))"
  define home where "home = ''HOME''"
  have b: "\<forall>r t. environ (snd (passing_body r t)) = environ t"
    by (simp add: passing_body_def)
  have b': "\<forall>r t. environ (snd (raising_body r t)) = environ t"
    by (simp add: raising_body_def)
  have h: "environ env_before home = Some ''/home/user''"
    by (simp add: env_before_def home_def)
  have ok: "fst (live_mock_server_setup send_ok local_server ''test_x'' env_before)
              = Inr local_server"
    by (simp add: live_mock_server_setup_def reset_ctx_def send_ok_def Let_def)
  have di: "distinct (map fst (env console_args))" by (simp add: console_args_def)
  have n1: "home \<notin> set live_mock_server_env"
    by (simp add: live_mock_server_env_def home_def)
  have n2: "home \<notin> keys"
    by (simp add: keys_def mocks_from_args_def console_args_def home_def)
  from fixtures_keep_other_variables [OF b' b s1_def s2_def keys_def] ok di
  have "(\<forall>k v. environ env_before k = Some v \<and> k \<notin> set live_mock_server_env
            \<longrightarrow> environ s1 k = Some v)"
    and "(\<forall>k v. environ env_before k = Some v \<and> k \<notin> keys \<longrightarrow> environ s2 k = Some v)"
    by blast+
  with h n1 n2 have "environ s1 home = Some ''/home/user''" "environ s2 home = Some ''/home/user''"
    by blast+
  moreover have "fst (use_fixture (live_mock_server_setup send_ok local_server ''test_x'')
                     live_mock_server_teardown raising_body env_before) = Failed"
    by (simp add: env_before_def use_fixture_def live_mock_server_setup_def
          live_mock_server_teardown_def live_mock_server_env_def reset_ctx_def send_ok_def
          ctx_request_def setenv_def delenv_def raising_body_def Let_def)
  ultimately show ?thesis using h by (simp add: s1_def s2_def home_def)
qed

theorem context_reset_at_test_start_witness:
  "fst (run_session local_server [writing_test, reading_test] session_before)
     = [Map.empty, Map.empty]"
proof -
  define obs where
    "obs = fst (run_session local_server [writing_test, reading_test] session_before)"
  have len: "length obs = 2"
    by (simp add: obs_def Let_def live_mock_server_setup_def reset_ctx_def
          mock_server_send_def ctx_request_def writing_test_def reading_test_def
          split: prod.splits)
  have all: "\<forall>c \<in> set obs. c = Map.empty"
    unfolding obs_def by (rule context_reset_at_test_start)
  from len obtain a b where ab: "obs = [a, b]"
    by (cases obs; cases "tl obs") auto
  with all have "a = Map.empty" "b = Map.empty" by simp_all
  with ab show ?thesis by (simp add: obs_def)
qed

theorem ctx_client_single_round_trip_witness:
  "snd (get_ctx (logged (\<lambda>req n. (Inl ConnectionError, n))) local_server ([], ()))
     = ([\<lparr>req_method = GET, req_url = ''http://localhost:8080/ctx'',
          req_json = None :: unit option\<rparr>], ())
   \<and> fst (get_ctx (\<lambda>req n. (Inl ConnectionError, n)) local_server ())
     = (Inl ConnectionError :: py_error + unit)"
proof -
  define send :: "(unit, unit) requests" where "send = (\<lambda>req n. (Inl ConnectionError, n))"
  define rq :: "unit request" where
    "rq = \<lparr>req_method = GET, req_url = base_url local_server @ ''/ctx'', req_json = None\<rparr>"
  have f: "fst (send rq ()) = Inl ConnectionError" by (simp add: send_def)
  note T = ctx_client_single_round_trip
             [where send = send and server = local_server and log = "[]" and n = "()"
                and e = ConnectionError, folded rq_def]
  from T have 1: "snd (get_ctx (logged send) local_server ([], ())) = ([rq], snd (send rq ()))"
    by simp
  from T f have 2: "fst (get_ctx send local_server ()) = Inl ConnectionError"
    by blast
  have 3: "snd (send rq ()) = ()" by simp
  from 1 2 3 show ?thesis by (simp add: send_def rq_def local_server_def)
qed

subsection \<open>The startup of the mock server\<close>

lemma poll_loop_dead:
  assumes "k < length as" "fst (as ! k) = RequestException" "snd (as ! k) \<noteq> None"
    and "\<forall>j<k. fst (as ! j) \<noteq> Response 200"
  shows "fst (poll_loop url as) = Inl (ValueError ''Server failed to start.'')"
  using assms
proof (induction as arbitrary: k)
  case Nil
  then show ?case by simp
next
  case (Cons a as)
  obtain res polled where a: "a = (res, polled)" by (cases a)
  show ?case
  proof (cases k)
    case 0
    with Cons.prems a show ?thesis by (auto split: option.splits)
  next
    case (Suc k')
    have first: "res \<noteq> Response 200" using Cons.prems(4) Suc a by auto
    have 1: "k' < length as" using Cons.prems(1) Suc by simp
    have 2: "fst (as ! k') = RequestException" "snd (as ! k') \<noteq> None"
      using Cons.prems(2,3) Suc by simp_all
    have 3: "\<forall>j<k'. fst (as ! j) \<noteq> Response 200"
      using Cons.prems(4) Suc by auto
    have ih: "fst (poll_loop url as) = Inl (ValueError ''Server failed to start.'')"
      by (rule Cons.IH [OF 1 2 3])
    show ?thesis
      using ih first a
      by (cases res; cases polled; cases "poll_loop url as") auto
  qed
qed

lemma poll_loop_ok:
  assumes "k < length as" "fst (as ! k) = Response 200"
    and "\<forall>j<k. \<not> (fst (as ! j) = RequestException \<and> snd (as ! j) \<noteq> None)"
  shows "fst (poll_loop url as) = Inr True"
  using assms
proof (induction as arbitrary: k)
  case Nil
  then show ?case by simp
next
  case (Cons a as)
  obtain res polled where a: "a = (res, polled)" by (cases a)
  show ?case
  proof (cases k)
    case 0
    with Cons.prems a show ?thesis by simp
  next
    case (Suc k')
    have first: "\<not> (res = RequestException \<and> polled \<noteq> None)"
      using Cons.prems(3) Suc a by auto
    have 1: "k' < length as" using Cons.prems(1) Suc by simp
    have 2: "fst (as ! k') = Response 200" using Cons.prems(2) Suc by simp
    have 3: "\<forall>j<k'. \<not> (fst (as ! j) = RequestException \<and> snd (as ! j) \<noteq> None)"
      using Cons.prems(3) Suc by auto
    have ih: "fst (poll_loop url as) = Inr True"
      by (rule Cons.IH [OF 1 2 3])
    show ?thesis
      using ih first a
      by (cases res; cases polled; cases "poll_loop url as") auto
  qed
qed

lemma poll_loop_exhausted:
  assumes "\<forall>a \<in> set as. fst a \<noteq> Response 200 \<and> (fst a = RequestException \<longrightarrow> snd a = None)"
  shows "fst (poll_loop url as) = Inr False"
  using assms
proof (induction as)
  case Nil
  show ?case by simp
next
  case (Cons a as)
  obtain res polled where a: "a = (res, polled)" by (cases a)
  have ih: "fst (poll_loop url as) = Inr False" using Cons by simp
  have first: "res \<noteq> Response 200" "res = RequestException \<longrightarrow> polled = None"
    using Cons.prems a by auto
  show ?case
    using ih first a
    by (cases res; cases polled; cases "poll_loop url as") auto
qed

lemma poll_loop_gets:
  "length (filter is_HttpGet (snd (poll_loop url as))) \<le> length as"
proof (induction as)
  case Nil
  show ?case by simp
next
  case (Cons a as)
  obtain res polled where a: "a = (res, polled)" by (cases a)
  show ?case
    using Cons a
    by (cases res; cases polled; cases "poll_loop url as") auto
qed

lemma poll_loop_events:
  assumes "e \<in> set (snd (poll_loop url as))"
  shows "(is_HttpGet e \<longrightarrow> e = HttpGet (url @ ''/ctx'') 5) \<and> (is_Sleep e \<longrightarrow> e = Sleep 1)
         \<and> e \<noteq> Terminate"
  using assms
proof (induction as)
  case Nil
  then show ?case by simp
next
  case (Cons a as)
  obtain res polled where a: "a = (res, polled)" by (cases a)
  show ?case
    using Cons a
    by (cases res; cases polled; cases "poll_loop url as") (auto split: if_splits)
qed

lemma poll_loop_sleeps:
  "length (filter is_Sleep (snd (poll_loop url as)))
     = length (filter (\<lambda>a. a = (RequestException, None))
                 (take (length (filter is_HttpGet (snd (poll_loop url as)))) as))"
proof (induction as)
  case Nil
  show ?case by simp
next
  case (Cons a as)
  obtain res polled where a: "a = (res, polled)" by (cases a)
  show ?case
    using Cons a
    by (cases res; cases polled; cases "poll_loop url as") auto
qed

lemma poll_loop_per_attempt:
  "\<exists>n. n \<le> length as \<and> (as \<noteq> [] \<longrightarrow> 0 < n)
       \<and> (\<forall>i. Suc i < n \<longrightarrow> \<not> ends_poll (as ! i))
       \<and> (n < length as \<longrightarrow> ends_poll (as ! (n - 1)))
       \<and> snd (poll_loop url as) = concat (map (attempt_trace url) (take n as))"
proof (induction as)
  case Nil
  show ?case by simp
next
  case (Cons a as)
  obtain res polled where a: "a = (res, polled)" by (cases a)
  show ?case
  proof (cases "ends_poll a")
    case True
    then have "snd (poll_loop url (a # as)) = attempt_trace url a"
      using a by (cases res; cases polled) (auto simp: ends_poll_def attempt_trace_def)
    with True show ?thesis by (intro exI [of _ 1]) simp
  next
    case False
    from Cons.IH obtain n where n: "n \<le> length as" "as \<noteq> [] \<longrightarrow> 0 < n"
      "\<forall>i. Suc i < n \<longrightarrow> \<not> ends_poll (as ! i)"
      "n < length as \<longrightarrow> ends_poll (as ! (n - 1))"
      "snd (poll_loop url as) = concat (map (attempt_trace url) (take n as))"
      by blast
    have tr: "snd (poll_loop url (a # as)) = attempt_trace url a @ snd (poll_loop url as)"
      using False a
      by (cases res; cases polled; cases "poll_loop url as")
         (auto simp: ends_poll_def attempt_trace_def)
    have 1: "Suc n \<le> length (a # as)" using n(1) by simp
    have 2: "\<forall>i. Suc i < Suc n \<longrightarrow> \<not> ends_poll ((a # as) ! i)"
    proof (intro allI impI)
      fix i assume i: "Suc i < Suc n"
      show "\<not> ends_poll ((a # as) ! i)"
      proof (cases i)
        case 0
        with False show ?thesis by simp
      next
        case (Suc j)
        with i n(3) show ?thesis by simp
      qed
    qed
    have 3: "Suc n < length (a # as) \<longrightarrow> ends_poll ((a # as) ! (Suc n - 1))"
    proof
      assume "Suc n < length (a # as)"
      then have l: "n < length as" by simp
      with n(2) have "0 < n" by auto
      moreover from l n(4) have "ends_poll (as ! (n - 1))" by simp
      ultimately show "ends_poll ((a # as) ! (Suc n - 1))" by (cases n) simp_all
    qed
    have 4: "snd (poll_loop url (a # as))
               = concat (map (attempt_trace url) (take (Suc n) (a # as)))"
      using tr n(5) by simp
    from 1 2 3 4 show ?thesis by (intro exI [of _ "Suc n"]) simp
  qed
qed

lemma attempts_nth:
  "length (map (attempts w) [0..<10]) = 10"
  "i < 10 \<Longrightarrow> map (attempts w) [0..<10] ! i = attempts w i"
  by simp_all

lemma start_mock_server_trace:
  "\<exists>tl. snd (start_mock_server w)
          = [Setenv ''PORT'' (string_of_nat (free_port w)), Setenv ''PYTHONPATH'' (repo_root w),
             Popen (free_port w)]
            @ snd (poll_loop (localhost_url (free_port w)) (map (attempts w) [0..<10]))
            @ tl
        \<and> (\<forall>e \<in> set tl. \<not> is_HttpGet e \<and> \<not> is_Sleep e \<and> e \<noteq> Poll)"
proof -
  define url where "url = localhost_url (free_port w)"
  define as where "as = map (attempts w) [0..<10]"
  obtain r es where p: "poll_loop url as = (r, es)" by (cases "poll_loop url as")
  show ?thesis
  proof (cases r)
    case (Inl e)
    with p show ?thesis
      by (simp add: start_mock_server_def start_mock_server_global_def Let_def url_def [symmetric] as_def [symmetric])
  next
    case (Inr started)
    with p show ?thesis
      by (cases started)
         (auto simp: start_mock_server_def start_mock_server_global_def Let_def url_def [symmetric] as_def [symmetric]
               dump_log_def split: sum.splits)
  qed
qed

lemma start_mock_server_per_attempt:
  "\<exists>n tl. 0 < n \<and> n \<le> 10
     \<and> (\<forall>i. Suc i < n \<longrightarrow>
            fst (attempts w i) \<noteq> Response 200
            \<and> \<not> (fst (attempts w i) = RequestException \<and> snd (attempts w i) \<noteq> None))
     \<and> (n < 10 \<longrightarrow>
            fst (attempts w (n - 1)) = Response 200
            \<or> (fst (attempts w (n - 1)) = RequestException \<and> snd (attempts w (n - 1)) \<noteq> None))
     \<and> snd (start_mock_server w)
          = [Setenv ''PORT'' (string_of_nat (free_port w)), Setenv ''PYTHONPATH'' (repo_root w),
             Popen (free_port w)]
            @ concat (map (\<lambda>i. attempt_trace (localhost_url (free_port w)) (attempts w i))
                        [0..<n])
            @ tl
     \<and> (\<forall>e \<in> set tl. \<not> is_HttpGet e \<and> \<not> is_Sleep e \<and> e \<noteq> Poll)"
proof -
  define url where "url = localhost_url (free_port w)"
  define as where "as = map (attempts w) [0..<10]"
  define spawn where "spawn = [Setenv ''PORT'' (string_of_nat (free_port w)),
                               Setenv ''PYTHONPATH'' (repo_root w), Popen (free_port w)]"
  have len: "length as = 10" by (simp add: as_def)
  have nth: "as ! i = attempts w i" if "i < 10" for i using that by (simp add: as_def)
  from start_mock_server_trace [of w] obtain tl where
    tr: "snd (start_mock_server w) = spawn @ snd (poll_loop url as) @ tl"
    and tl: "\<forall>e \<in> set tl. \<not> is_HttpGet e \<and> \<not> is_Sleep e \<and> e \<noteq> Poll"
    unfolding url_def as_def spawn_def by blast
  from poll_loop_per_attempt [of as url] obtain n where
    n: "n \<le> length as" "as \<noteq> [] \<longrightarrow> 0 < n"
       "\<forall>i. Suc i < n \<longrightarrow> \<not> ends_poll (as ! i)"
       "n < length as \<longrightarrow> ends_poll (as ! (n - 1))"
       "snd (poll_loop url as) = concat (map (attempt_trace url) (take n as))"
    by blast
  have 1: "0 < n" using n(2) len by auto
  have 2: "n \<le> 10" using n(1) len by simp
  have 3: "\<forall>i. Suc i < n \<longrightarrow>
            fst (attempts w i) \<noteq> Response 200
            \<and> \<not> (fst (attempts w i) = RequestException \<and> snd (attempts w i) \<noteq> None)"
  proof (intro allI impI)
    fix i assume i: "Suc i < n"
    then have "i < 10" using 2 by simp
    with n(3) i nth [of i] show "fst (attempts w i) \<noteq> Response 200
            \<and> \<not> (fst (attempts w i) = RequestException \<and> snd (attempts w i) \<noteq> None)"
      by (auto simp: ends_poll_def)
  qed
  have 4: "n < 10 \<longrightarrow>
            fst (attempts w (n - 1)) = Response 200
            \<or> (fst (attempts w (n - 1)) = RequestException \<and> snd (attempts w (n - 1)) \<noteq> None)"
  proof
    assume l: "n < 10"
    then have "n - 1 < 10" by simp
    with n(4) l len nth [of "n - 1"] show "fst (attempts w (n - 1)) = Response 200
            \<or> (fst (attempts w (n - 1)) = RequestException \<and> snd (attempts w (n - 1)) \<noteq> None)"
      by (auto simp: ends_poll_def)
  qed
  have "take n as = map (attempts w) [0..<n]"
    using 2 by (simp add: as_def take_map min_def)
  then have 5: "snd (poll_loop url as)
                  = concat (map (\<lambda>i. attempt_trace url (attempts w i)) [0..<n])"
    using n(5) by (simp add: comp_def)
  have 6: "snd (start_mock_server w)
             = spawn @ concat (map (\<lambda>i. attempt_trace url (attempts w i)) [0..<n]) @ tl"
    using tr 5 by simp
  from 1 2 3 4 6 tl show ?thesis
    unfolding url_def spawn_def by blast
qed

text \<open>
  C5, as amended. When an attempt of the poll raises a request exception and finds the
  child exited, and no earlier attempt was answered with status 200,
  \<open>start_mock_server\<close> raises \<open>ValueError\<close>, whatever the module global was before:
  its result is the exception and no handle is returned to the caller. The handle has
  been constructed before the poll, and after the raise it is what the module global
  \<open>server\<close> holds: the process object with the allocated port and the base URL
  \<open>http://localhost:\<close> followed by that port.
\<close>

theorem start_mock_server_child_exit:
  assumes "k < 10"
    and "fst (attempts w k) = RequestException"
    and "snd (attempts w k) \<noteq> None"
    and "\<forall>j<k. fst (attempts w j) \<noteq> Response 200"
  shows "fst (fst (start_mock_server_global w g)) = Inl (ValueError ''Server failed to start.'')
         \<and> fst (start_mock_server w) = Inl (ValueError ''Server failed to start.'')
         \<and> snd (start_mock_server_global w g)
             = Some \<lparr>port = free_port w, base_url = localhost_url (free_port w)\<rparr>
         \<and> localhost_url (free_port w) = ''http://localhost:'' @ string_of_nat (free_port w)"
proof -
  define url where "url = localhost_url (free_port w)"
  define as where "as = map (attempts w) [0..<10]"
  have 1: "k < length as" using assms(1) by (simp add: as_def)
  have 2: "fst (as ! k) = RequestException" "snd (as ! k) \<noteq> None"
    using assms(1,2,3) by (simp_all add: as_def)
  have 3: "\<forall>j<k. fst (as ! j) \<noteq> Response 200"
    using assms(1,4) by (simp add: as_def)
  have "fst (poll_loop url as) = Inl (ValueError ''Server failed to start.'')"
    by (rule poll_loop_dead [OF 1 2 3])
  then have r: "fst (start_mock_server w) = Inl (ValueError ''Server failed to start.'')"
    by (cases "poll_loop url as")
       (simp add: start_mock_server_def start_mock_server_global_def Let_def
          url_def [symmetric] as_def [symmetric])
  have same: "fst (start_mock_server_global w g) = start_mock_server w"
    by (simp add: start_mock_server_def start_mock_server_global_def Let_def)
  have glob: "snd (start_mock_server_global w g)
                = Some \<lparr>port = free_port w, base_url = url\<rparr>"
    by (simp add: start_mock_server_global_def Let_def url_def)
  from r same glob show ?thesis
    unfolding url_def by (simp add: localhost_url_def)
qed

text \<open>
  C1, as amended. When the retry budget is exhausted (none of the ten attempts is
  answered with status 200 and none finds the child exited), \<open>start_mock_server\<close>
  terminates the child, then prints the failure line and dumps the log (each line
  stripped, between two rules of forty \<open>=\<close>, when the log can be read), and raises
  \<open>ValueError\<close>. When the child exits before an attempt succeeds, it raises
  \<open>ValueError\<close> from inside the loop.
\<close>

theorem start_mock_server_failure_paths:
  "((\<forall>i<10. fst (attempts w i) \<noteq> Response 200
             \<and> (fst (attempts w i) = RequestException \<longrightarrow> snd (attempts w i) = None)) \<longrightarrow>
      fst (start_mock_server w)
        = Inl (ValueError (''Failed to start server!  Exit code ''
                             @ py_str_returncode (returncode w)))
      \<and> (\<exists>es. snd (start_mock_server w)
                = es @ [Terminate,
                        Print ''Server failed to launch, see tests/logs/live_mock_server.log'']
                     @ dump_log (log_lines w)
              \<and> Terminate \<notin> set es)
      \<and> (\<forall>ls. log_lines w = Inr ls \<longrightarrow>
            dump_log (log_lines w)
              = Print (replicate 40 CHR ''='') # map (\<lambda>l. Print (strip l)) ls
                  @ [Print (replicate 40 CHR ''='')]))
   \<and> ((\<exists>k<10. fst (attempts w k) = RequestException \<and> snd (attempts w k) \<noteq> None
              \<and> (\<forall>j<k. fst (attempts w j) \<noteq> Response 200)) \<longrightarrow>
      fst (start_mock_server w) = Inl (ValueError ''Server failed to start.''))"
proof (intro conjI impI)
  define url where "url = localhost_url (free_port w)"
  define as where "as = map (attempts w) [0..<10]"
  assume ex: "\<forall>i<10. fst (attempts w i) \<noteq> Response 200
             \<and> (fst (attempts w i) = RequestException \<longrightarrow> snd (attempts w i) = None)"
  have "\<forall>a \<in> set as. fst a \<noteq> Response 200 \<and> (fst a = RequestException \<longrightarrow> snd a = None)"
    using ex by (auto simp: as_def)
  then have f: "fst (poll_loop url as) = Inr False" by (rule poll_loop_exhausted)
  then obtain es where p: "poll_loop url as = (Inr False, es)"
    by (cases "poll_loop url as") auto
  have noterm: "Terminate \<notin> set es"
    using poll_loop_events [of Terminate url as] p by auto
  show "fst (start_mock_server w)
        = Inl (ValueError (''Failed to start server!  Exit code ''
                             @ py_str_returncode (returncode w)))"
    using p by (simp add: start_mock_server_def start_mock_server_global_def Let_def url_def [symmetric] as_def [symmetric])
  let ?spawn = "[Setenv ''PORT'' (string_of_nat (free_port w)),
                 Setenv ''PYTHONPATH'' (repo_root w), Popen (free_port w)]"
  have "snd (start_mock_server w)
          = (?spawn @ es) @ [Terminate,
                Print ''Server failed to launch, see tests/logs/live_mock_server.log'']
              @ dump_log (log_lines w)"
    using p by (simp add: start_mock_server_def start_mock_server_global_def Let_def url_def [symmetric] as_def [symmetric])
  moreover have "Terminate \<notin> set (?spawn @ es)" using noterm by simp
  ultimately show "\<exists>es. snd (start_mock_server w)
                = es @ [Terminate,
                        Print ''Server failed to launch, see tests/logs/live_mock_server.log'']
                     @ dump_log (log_lines w)
              \<and> Terminate \<notin> set es"
    by blast
next
  show "\<forall>ls. log_lines w = Inr ls \<longrightarrow>
            dump_log (log_lines w)
              = Print (replicate 40 CHR ''='') # map (\<lambda>l. Print (strip l)) ls
                  @ [Print (replicate 40 CHR ''='')]"
    by (simp add: dump_log_def)
next
  define url where "url = localhost_url (free_port w)"
  define as where "as = map (attempts w) [0..<10]"
  assume "\<exists>k<10. fst (attempts w k) = RequestException \<and> snd (attempts w k) \<noteq> None
              \<and> (\<forall>j<k. fst (attempts w j) \<noteq> Response 200)"
  then obtain k where k: "k < 10" "fst (attempts w k) = RequestException"
    "snd (attempts w k) \<noteq> None" "\<forall>j<k. fst (attempts w j) \<noteq> Response 200"
    by blast
  have 1: "k < length as" using k(1) by (simp add: as_def)
  have 2: "fst (as ! k) = RequestException" "snd (as ! k) \<noteq> None"
    using k(1,2,3) by (simp_all add: as_def)
  have 3: "\<forall>j<k. fst (as ! j) \<noteq> Response 200"
    using k(1,4) by (simp add: as_def)
  have "fst (poll_loop url as) = Inl (ValueError ''Server failed to start.'')"
    by (rule poll_loop_dead [OF 1 2 3])
  then show "fst (start_mock_server w) = Inl (ValueError ''Server failed to start.'')"
    by (cases "poll_loop url as")
       (simp add: start_mock_server_def start_mock_server_global_def Let_def url_def [symmetric] as_def [symmetric])
qed

lemma start_mock_server_poll_counts:
  "length (filter is_HttpGet (snd (start_mock_server w))) \<le> 10
   \<and> (\<forall>e \<in> set (snd (start_mock_server w)).
        is_HttpGet e \<longrightarrow>
          e = HttpGet (localhost_url (free_port w) @ ''/ctx'') 5)
   \<and> (\<forall>e \<in> set (snd (start_mock_server w)). is_Sleep e \<longrightarrow> e = Sleep 1)
   \<and> length (filter is_Sleep (snd (start_mock_server w)))
       = length (filter (\<lambda>i. attempts w i = (RequestException, None))
                   [0..<length (filter is_HttpGet (snd (start_mock_server w)))])
   \<and> ((\<exists>k<10. fst (attempts w k) = Response 200
          \<and> (\<forall>j<k. \<not> (fst (attempts w j) = RequestException \<and> snd (attempts w j) \<noteq> None)))
        \<longrightarrow> fst (start_mock_server w)
              = Inr \<lparr>port = free_port w,
                     base_url = localhost_url (free_port w)\<rparr>)
   \<and> localhost_url (free_port w) = ''http://localhost:'' @ string_of_nat (free_port w)"
proof -
  define url where "url = localhost_url (free_port w)"
  define as where "as = map (attempts w) [0..<10]"
  define es where "es = snd (poll_loop url as)"
  define tr where "tr = snd (start_mock_server w)"
  from start_mock_server_trace [of w] obtain tl where
    tr: "tr = [Setenv ''PORT'' (string_of_nat (free_port w)),
               Setenv ''PYTHONPATH'' (repo_root w), Popen (free_port w)] @ es @ tl"
    and tl: "\<forall>e \<in> set tl. \<not> is_HttpGet e \<and> \<not> is_Sleep e"
    unfolding tr_def es_def url_def as_def by blast
  have gets: "filter is_HttpGet tr = filter is_HttpGet es"
    using tl by (simp add: tr filter_empty_conv)
  have sleeps: "filter is_Sleep tr = filter is_Sleep es"
    using tl by (simp add: tr filter_empty_conv)
  have n: "length (filter is_HttpGet es) \<le> 10"
    using poll_loop_gets [of url as] by (simp add: es_def as_def)
  have a: "length (filter is_HttpGet tr) \<le> 10" using gets n by simp
  have ev: "\<forall>e \<in> set es. (is_HttpGet e \<longrightarrow> e = HttpGet (url @ ''/ctx'') 5)
                         \<and> (is_Sleep e \<longrightarrow> e = Sleep 1)"
    using poll_loop_events [of _ url as] by (simp add: es_def)
  have b: "\<forall>e \<in> set tr. is_HttpGet e \<longrightarrow> e = HttpGet (url @ ''/ctx'') 5"
  proof (intro ballI impI)
    fix e assume "e \<in> set tr" "is_HttpGet e"
    then have "e \<in> set (filter is_HttpGet tr)" by simp
    then have "e \<in> set (filter is_HttpGet es)" by (simp only: gets)
    with ev show "e = HttpGet (url @ ''/ctx'') 5" by simp
  qed
  have c: "\<forall>e \<in> set tr. is_Sleep e \<longrightarrow> e = Sleep 1"
  proof (intro ballI impI)
    fix e assume "e \<in> set tr" "is_Sleep e"
    then have "e \<in> set (filter is_Sleep tr)" by simp
    then have "e \<in> set (filter is_Sleep es)" by (simp only: sleeps)
    with ev show "e = Sleep 1" by simp
  qed
  have "length (filter is_Sleep es)
          = length (filter (\<lambda>a. a = (RequestException, None))
                      (take (length (filter is_HttpGet es)) as))"
    unfolding es_def by (rule poll_loop_sleeps)
  also have "take (length (filter is_HttpGet es)) as
               = map (attempts w) [0..<length (filter is_HttpGet es)]"
    using n by (simp add: as_def take_map min_def)
  also have "length (filter (\<lambda>a. a = (RequestException, None))
                       (map (attempts w) [0..<length (filter is_HttpGet es)]))
               = length (filter (\<lambda>i. attempts w i = (RequestException, None))
                           [0..<length (filter is_HttpGet es)])"
    by (simp add: filter_map comp_def)
  finally have d: "length (filter is_Sleep tr)
       = length (filter (\<lambda>i. attempts w i = (RequestException, None))
                   [0..<length (filter is_HttpGet tr)])"
    using gets sleeps by simp
  have e: "fst (start_mock_server w) = Inr \<lparr>port = free_port w, base_url = url\<rparr>"
    if "\<exists>k<10. fst (attempts w k) = Response 200
          \<and> (\<forall>j<k. \<not> (fst (attempts w j) = RequestException \<and> snd (attempts w j) \<noteq> None))"
  proof -
    from that obtain k where k: "k < 10" "fst (attempts w k) = Response 200"
      "\<forall>j<k. \<not> (fst (attempts w j) = RequestException \<and> snd (attempts w j) \<noteq> None)"
      by blast
    have 1: "k < length as" using k(1) by (simp add: as_def)
    have 2: "fst (as ! k) = Response 200" using k(1,2) by (simp add: as_def)
    have 3: "\<forall>j<k. \<not> (fst (as ! j) = RequestException \<and> snd (as ! j) \<noteq> None)"
      using k(1,3) by (simp add: as_def)
    have "fst (poll_loop url as) = Inr True" by (rule poll_loop_ok [OF 1 2 3])
    then show ?thesis
      by (cases "poll_loop url as")
         (simp add: start_mock_server_def start_mock_server_global_def Let_def url_def [symmetric] as_def [symmetric])
  qed
  from a b c d e show ?thesis
    unfolding tr_def url_def by (simp add: localhost_url_def)
qed

text \<open>
  C2, as amended. The trace of a startup run is the spawn of the child, then the trace
  of each attempt made, in order, then a tail with no request, no poll of the child and
  no sleep. The trace of one attempt (\<open>attempt_trace\<close>) is the \<open>GET\<close> of
  \<open>base_url + "/ctx"\<close> with a timeout of 5 seconds, followed after a request
  exception by the question whether the child is alive and, when it is, by the sleep
  of 1 second; after an answer with another status than 200 the next request follows
  at once. The number \<open>n\<close> of attempts made is at most ten: no attempt before the last
  one made was answered with status 200 or found the child exited, and fewer than ten
  are made only when the last one was. So there are at most ten requests, every sleep
  lasts 1 second, and there are as many sleeps as attempts made that raised a request
  exception while the child was alive. When an attempt is answered with status 200 and
  no earlier attempt found the child exited, the function returns the handle whose
  port is the allocated one and whose base URL is \<open>http://localhost:\<close> followed by
  that port.
\<close>

theorem start_mock_server_liveness_poll:
  "(\<exists>n tl. 0 < n \<and> n \<le> 10
     \<and> (\<forall>i. Suc i < n \<longrightarrow>
            fst (attempts w i) \<noteq> Response 200
            \<and> \<not> (fst (attempts w i) = RequestException \<and> snd (attempts w i) \<noteq> None))
     \<and> (n < 10 \<longrightarrow>
            fst (attempts w (n - 1)) = Response 200
            \<or> (fst (attempts w (n - 1)) = RequestException \<and> snd (attempts w (n - 1)) \<noteq> None))
     \<and> snd (start_mock_server w)
          = [Setenv ''PORT'' (string_of_nat (free_port w)), Setenv ''PYTHONPATH'' (repo_root w),
             Popen (free_port w)]
            @ concat (map (\<lambda>i. attempt_trace (localhost_url (free_port w)) (attempts w i))
                        [0..<n])
            @ tl
     \<and> (\<forall>e \<in> set tl. \<not> is_HttpGet e \<and> \<not> is_Sleep e \<and> e \<noteq> Poll))
   \<and> (length (filter is_HttpGet (snd (start_mock_server w))) \<le> 10
   \<and> (\<forall>e \<in> set (snd (start_mock_server w)).
        is_HttpGet e \<longrightarrow>
          e = HttpGet (localhost_url (free_port w) @ ''/ctx'') 5)
   \<and> (\<forall>e \<in> set (snd (start_mock_server w)). is_Sleep e \<longrightarrow> e = Sleep 1)
   \<and> length (filter is_Sleep (snd (start_mock_server w)))
       = length (filter (\<lambda>i. attempts w i = (RequestException, None))
                   [0..<length (filter is_HttpGet (snd (start_mock_server w)))])
   \<and> ((\<exists>k<10. fst (attempts w k) = Response 200
          \<and> (\<forall>j<k. \<not> (fst (attempts w j) = RequestException \<and> snd (attempts w j) \<noteq> None)))
        \<longrightarrow> fst (start_mock_server w)
              = Inr \<lparr>port = free_port w,
                     base_url = localhost_url (free_port w)\<rparr>)
   \<and> localhost_url (free_port w) = ''http://localhost:'' @ string_of_nat (free_port w))"
  by (rule conjI [OF start_mock_server_per_attempt start_mock_server_poll_counts])

lemma upt_10: "[0..<10] = [0, 1, 2, 3, 4, 5, 6, 7, 8, 9]"
  by (simp add: upt_rec)

lemma string_of_nat_8080: "string_of_nat 8080 = ''8080''"
  by (simp add: string_of_nat.simps digit_char_def)

text \<open>
  The claim as stated fails on the path of the early exit: nothing is terminated and
  the log, though it can be read, is not printed.
\<close>

theorem start_mock_server_early_exit_no_dump_counterexample:
  "log_lines world_child_exits = Inr [''ImportError: No module named flask'']
   \<and> start_mock_server world_child_exits
     = (Inl (ValueError ''Server failed to start.''),
        [Setenv ''PORT'' ''8080'', Setenv ''PYTHONPATH'' ''/repo'', Popen 8080,
         HttpGet ''http://localhost:8080/ctx'' 5,
         Print ''Timed out waiting for server to start... http://localhost:8080'',
         Poll])"
  by (simp add: start_mock_server_def start_mock_server_global_def world_child_exits_def Let_def upt_10 localhost_url_def
        string_of_nat_8080)

text \<open>
  The claim as stated fails when the server answers with an error status: the child is
  alive throughout, ten attempts are made and there is no sleep between them.
\<close>

theorem start_mock_server_no_backoff_counterexample:
  "attempts world_error_500 = (\<lambda>i. (Response 500, None))
   \<and> length (filter is_HttpGet (snd (start_mock_server world_error_500))) = 10
   \<and> filter is_Sleep (snd (start_mock_server world_error_500)) = []"
  by (simp add: start_mock_server_def start_mock_server_global_def world_error_500_def Let_def upt_10 dump_log_def)

theorem start_mock_server_child_exit_witness:
  "fst (attempts world_exits_third 2) = RequestException
   \<and> snd (attempts world_exits_third 2) = Some 1
   \<and> fst (start_mock_server world_exits_third) = Inl (ValueError ''Server failed to start.'')
   \<and> snd (start_mock_server_global world_exits_third None)
       = Some \<lparr>port = 8080, base_url = ''http://localhost:8080''\<rparr>"
proof -
  have 1: "(2::nat) < 10" by simp
  have 2: "fst (attempts world_exits_third 2) = RequestException"
    by (simp add: world_exits_third_def)
  have 3: "snd (attempts world_exits_third 2) = Some 1"
    by (simp add: world_exits_third_def)
  then have n3: "snd (attempts world_exits_third 2) \<noteq> None" by simp
  have 4: "\<forall>j<2. fst (attempts world_exits_third j) \<noteq> Response 200"
    by (simp add: world_exits_third_def)
  have p: "free_port world_exits_third = 8080" by (simp add: world_exits_third_def)
  from start_mock_server_child_exit [OF 1 2 n3 4, of None] 2 3 p show ?thesis
    by (simp add: string_of_nat_8080)
qed

text \<open>
  The claim as stated fails: when the function raises because the child has exited, the
  handle has been constructed and the module global holds it.
\<close>

theorem start_mock_server_handle_constructed_counterexample:
  "fst (fst (start_mock_server_global world_child_exits None))
     = Inl (ValueError ''Server failed to start.'')
   \<and> snd (start_mock_server_global world_child_exits None)
     = Some \<lparr>port = 8080, base_url = ''http://localhost:8080''\<rparr>"
  by (simp add: start_mock_server_global_def world_child_exits_def Let_def upt_10
        localhost_url_def string_of_nat_8080)

theorem start_mock_server_failure_paths_witness:
  "fst (start_mock_server world_never_ready)
     = Inl (ValueError ''Failed to start server!  Exit code None'')
   \<and> (\<exists>es. snd (start_mock_server world_never_ready)
             = es @ [Terminate,
                     Print ''Server failed to launch, see tests/logs/live_mock_server.log'',
                     Print (replicate 40 CHR ''=''),
                     Print ''* Serving Flask app'',
                     Print (replicate 40 CHR ''='')]
           \<and> Terminate \<notin> set es)
   \<and> fst (start_mock_server world_child_exits) = Inl (ValueError ''Server failed to start.'')"
proof -
  define w1 where "w1 = world_never_ready"
  define w2 where "w2 = world_child_exits"
  define launch where
    "launch = Print ''Server failed to launch, see tests/logs/live_mock_server.log''"
  have h1: "\<forall>i<10. fst (attempts w1 i) \<noteq> Response 200
             \<and> (fst (attempts w1 i) = RequestException \<longrightarrow> snd (attempts w1 i) = None)"
    by (simp add: w1_def world_never_ready_def)
  have h2: "\<exists>k<10. fst (attempts w2 k) = RequestException \<and> snd (attempts w2 k) \<noteq> None
              \<and> (\<forall>j<k. fst (attempts w2 j) \<noteq> Response 200)"
    by (rule exI [of _ 0]) (simp add: w2_def world_child_exits_def)
  have rc: "py_str_returncode (returncode w1) = ''None''"
    by (simp add: w1_def world_never_ready_def py_str_returncode_def)
  have dl: "dump_log (log_lines w1)
              = [Print (replicate 40 CHR ''=''), Print ''* Serving Flask app'',
                 Print (replicate 40 CHR ''='')]"
    by (simp add: w1_def world_never_ready_def dump_log_def strip_def is_space_def)
  from start_mock_server_failure_paths [of w1, folded launch_def] h1
  have a: "fst (start_mock_server w1)
             = Inl (ValueError (''Failed to start server!  Exit code ''
                                  @ py_str_returncode (returncode w1)))"
    and b: "\<exists>es. snd (start_mock_server w1) = es @ [Terminate, launch] @ dump_log (log_lines w1)
                \<and> Terminate \<notin> set es"
    by blast+
  from start_mock_server_failure_paths [of w2, folded launch_def] h2
  have c: "fst (start_mock_server w2) = Inl (ValueError ''Server failed to start.'')"
    by blast
  from a rc have a': "fst (start_mock_server w1)
                        = Inl (ValueError ''Failed to start server!  Exit code None'')"
    by simp
  from b dl have b': "\<exists>es. snd (start_mock_server w1)
             = es @ [Terminate, launch, Print (replicate 40 CHR ''=''),
                     Print ''* Serving Flask app'', Print (replicate 40 CHR ''='')]
           \<and> Terminate \<notin> set es"
    by simp
  from a' b' c show ?thesis unfolding w1_def w2_def launch_def by blast
qed

theorem start_mock_server_liveness_poll_witness:
  "fst (attempts world_ready_third 2) = Response 200
   \<and> fst (start_mock_server world_ready_third)
       = Inr \<lparr>port = 8080, base_url = ''http://localhost:8080''\<rparr>
   \<and> length (filter is_HttpGet (snd (start_mock_server world_ready_third))) = 3
   \<and> length (filter is_Sleep (snd (start_mock_server world_ready_third))) = 2
   \<and> snd (start_mock_server world_ready_third)
       = [Setenv ''PORT'' ''8080'', Setenv ''PYTHONPATH'' ''/repo'', Popen 8080,
          HttpGet ''http://localhost:8080/ctx'' 5,
          Print ''Timed out waiting for server to start... http://localhost:8080'',
          Poll, Sleep 1,
          HttpGet ''http://localhost:8080/ctx'' 5,
          Print ''Timed out waiting for server to start... http://localhost:8080'',
          Poll, Sleep 1,
          HttpGet ''http://localhost:8080/ctx'' 5,
          Print ''Mock server listing on 8080 see tests/logs/live_mock_server.log'']"
proof -
  define w where "w = world_ready_third"
  have h: "\<exists>k<10. fst (attempts w k) = Response 200
          \<and> (\<forall>j<k. \<not> (fst (attempts w j) = RequestException \<and> snd (attempts w j) \<noteq> None))"
    by (rule exI [of _ 2]) (simp add: w_def world_ready_third_def)
  have p: "free_port w = 8080" by (simp add: w_def world_ready_third_def)
  have g: "length (filter is_HttpGet (snd (start_mock_server w))) = 3"
    by (simp add: w_def start_mock_server_def start_mock_server_global_def world_ready_third_def Let_def upt_10)
  have u: "[0..<3] = [0, 1, 2]" by (simp add: upt_rec)
  from start_mock_server_liveness_poll [of w, THEN conjunct2] h
  have a: "fst (start_mock_server w)
             = Inr \<lparr>port = free_port w, base_url = localhost_url (free_port w)\<rparr>"
    and b: "length (filter is_Sleep (snd (start_mock_server w)))
       = length (filter (\<lambda>i. attempts w i = (RequestException, None))
                   [0..<length (filter is_HttpGet (snd (start_mock_server w)))])"
    by blast+
  from a p have a': "fst (start_mock_server w)
                       = Inr \<lparr>port = 8080, base_url = ''http://localhost:8080''\<rparr>"
    by (simp add: localhost_url_def string_of_nat_8080)
  from b g u have b': "length (filter is_Sleep (snd (start_mock_server w))) = 2"
    by (simp add: w_def world_ready_third_def)
  have f: "fst (attempts w 2) = Response 200" by (simp add: w_def world_ready_third_def)
  have t: "snd (start_mock_server w)
       = [Setenv ''PORT'' ''8080'', Setenv ''PYTHONPATH'' ''/repo'', Popen 8080,
          HttpGet ''http://localhost:8080/ctx'' 5,
          Print ''Timed out waiting for server to start... http://localhost:8080'',
          Poll, Sleep 1,
          HttpGet ''http://localhost:8080/ctx'' 5,
          Print ''Timed out waiting for server to start... http://localhost:8080'',
          Poll, Sleep 1,
          HttpGet ''http://localhost:8080/ctx'' 5,
          Print ''Mock server listing on 8080 see tests/logs/live_mock_server.log'']"
    by (simp add: w_def start_mock_server_def start_mock_server_global_def
          world_ready_third_def Let_def upt_10 localhost_url_def string_of_nat_8080)
  from f a' g b' t show ?thesis unfolding w_def by simp
qed

subsection \<open>The patched path expansion\<close>

lemma substring_in_iff: "substring_in needle s \<longleftrightarrow> (\<exists>a b. s = a @ needle @ b)"
proof (induction s)
  case Nil
  show ?case by auto
next
  case (Cons c cs)
  show ?case
  proof
    assume "substring_in needle (c # cs)"
    then consider "prefix needle (c # cs)" | "substring_in needle cs" by auto
    then show "\<exists>a b. c # cs = a @ needle @ b"
    proof cases
      case 1
      then obtain b where "c # cs = needle @ b" by (auto simp: prefix_def)
      then have "c # cs = [] @ needle @ b" by simp
      then show ?thesis by blast
    next
      case 2
      with Cons obtain a b where "cs = a @ needle @ b" by blast
      then have "c # cs = (c # a) @ needle @ b" by simp
      then show ?thesis by blast
    qed
  next
    assume "\<exists>a b. c # cs = a @ needle @ b"
    then obtain a b where ab: "c # cs = a @ needle @ b" by blast
    show "substring_in needle (c # cs)"
    proof (cases a)
      case Nil
      with ab have "prefix needle (c # cs)" by (simp add: prefix_def)
      then show ?thesis by simp
    next
      case (Cons x a')
      with ab have "cs = a' @ needle @ b" by simp
      with Cons.IH have "substring_in needle cs" by blast
      then show ?thesis by simp
    qed
  qed
qed

lemma path_join_inside:
  assumes "dir \<noteq> []" "last dir \<noteq> CHR ''/''" "name \<noteq> []" "hd name \<noteq> CHR ''/''"
  shows "inside dir (path_join dir name)"
  using assms by (simp add: inside_def path_join_def strict_prefix_def)

text \<open>
  C6, as amended. \<open>st'\<close> is any later state in which the function installed by
  \<open>local_netrc\<close> is still bound to \<open>os.path.expanduser\<close>. For a path that contains
  \<open>netrc\<close> the result is the file \<open>netrc\<close> of the working directory of the moment of
  the call; it lies inside the sandbox root \<open>tmp\<close> when that is still the working
  directory. For any other path the result is that of the original function.
\<close>

theorem expand_netrc:
  assumes installed: "expanduser st' = expanduser (local_netrc tmp st)"
  shows "(substring_in ''netrc'' path \<longrightarrow>
            os_path_expanduser st' path = path_join (cwd st') ''netrc''
            \<and> (cwd st' = tmp \<and> tmp \<noteq> [] \<and> last tmp \<noteq> CHR ''/''
                 \<longrightarrow> inside tmp (os_path_expanduser st' path)))
       \<and> (\<not> substring_in ''netrc'' path \<longrightarrow>
            os_path_expanduser st' path = expanduser st (cwd st') path)"
proof -
  have e: "expanduser st' = expand (expanduser st)"
    using installed by (simp add: local_netrc_def Let_def)
  have i: "inside tmp (path_join tmp ''netrc'')" if "tmp \<noteq> []" "last tmp \<noteq> CHR ''/''"
    using that by (intro path_join_inside) simp_all
  show ?thesis
    using i by (auto simp: os_path_expanduser_def e expand_def realpath_def)
qed

theorem expand_netrc_witness:
  "cwd (local_netrc ''/tmp/sandbox'' os_before) = ''/tmp/sandbox''
   \<and> substring_in ''netrc'' ''~/.netrc''
   \<and> os_path_expanduser (local_netrc ''/tmp/sandbox'' os_before) ''~/.netrc''
       = ''/tmp/sandbox/netrc''
   \<and> inside ''/tmp/sandbox''
        (os_path_expanduser (local_netrc ''/tmp/sandbox'' os_before) ''~/.netrc'')
   \<and> \<not> substring_in ''netrc'' ''~/x''
   \<and> os_path_expanduser (local_netrc ''/tmp/sandbox'' os_before) ''~/x'' = ''/home/user/x''"
proof -
  define tmp where "tmp = ''/tmp/sandbox''"
  define st' where "st' = local_netrc tmp os_before"
  define p1 where "p1 = ''~/.netrc''"
  define p2 where "p2 = ''~/x''"
  have c: "cwd st' = tmp" by (simp add: st'_def local_netrc_def Let_def)
  have t: "tmp \<noteq> []" "last tmp \<noteq> CHR ''/''" by (simp_all add: tmp_def)
  have m1: "substring_in ''netrc'' p1" by (simp add: p1_def)
  have m2: "\<not> substring_in ''netrc'' p2" by (simp add: p2_def)
  have i: "expanduser st' = expanduser (local_netrc tmp os_before)" by (simp add: st'_def)
  from expand_netrc [OF i, of p1] m1 c t
  have a: "os_path_expanduser st' p1 = path_join tmp ''netrc''"
    and b: "inside tmp (os_path_expanduser st' p1)"
    by auto
  from expand_netrc [OF i, of p2] m2 c
  have d: "os_path_expanduser st' p2 = expanduser os_before tmp p2" by simp
  have j: "path_join tmp ''netrc'' = ''/tmp/sandbox/netrc''"
    by (simp add: path_join_def tmp_def)
  have k: "expanduser os_before tmp p2 = ''/home/user/x''"
    by (simp add: os_before_def p2_def)
  from a b c d j k m1 m2 show ?thesis
    unfolding st'_def tmp_def p1_def p2_def by simp
qed

text \<open>
  The claim as stated fails once the working directory has changed, as it has in every
  test that uses \<open>test_dir\<close>: the result is then outside the sandbox root.
\<close>

theorem expand_netrc_outside_sandbox_counterexample:
  "substring_in ''netrc'' ''~/.netrc''
   \<and> os_path_expanduser
        (test_dir ''/repo'' ''test_x'' (local_netrc ''/tmp/sandbox'' os_before)) ''~/.netrc''
       = ''/repo/tests/logs/test_x/netrc''
   \<and> \<not> inside ''/tmp/sandbox''
          (os_path_expanduser
             (test_dir ''/repo'' ''test_x'' (local_netrc ''/tmp/sandbox'' os_before))
             ''~/.netrc'')"
  by (simp add: os_path_expanduser_def test_dir_def local_netrc_def expand_def realpath_def
        path_join_def inside_def os_before_def Let_def)

end
